theory Spec2Isabelle
  imports Main
begin

section \<open>Python values and the failures of the source\<close>

text \<open>
  The file \<^verbatim>\<open>calico/openstack/t_etcd.py\<close> works on Neutron dictionaries. A field of a
  security group rule is \<^verbatim>\<open>None\<close>, an integer or a string; these are the values of
  type \<open>pyval\<close>. A dictionary is a map from its keys to its values, and
  \<^verbatim>\<open>d[k]\<close> on a missing key raises \<^verbatim>\<open>KeyError\<close>.
\<close>

datatype pyval = PNone | PInt int | PStr string

datatype error = KeyError | AttributeError | EtcdKeyNotFound

type_synonym 'a result = "error + 'a"

definition and_then :: "'a result \<Rightarrow> ('a \<Rightarrow> 'b result) \<Rightarrow> 'b result" where
  "and_then m f = (case m of Inl e \<Rightarrow> Inl e | Inr v \<Rightarrow> f v)"

definition getitem :: "(string \<rightharpoonup> 'v) \<Rightarrow> string \<Rightarrow> 'v result" where
  "getitem d k = (case d k of None \<Rightarrow> Inl KeyError | Some v \<Rightarrow> Inr v)"

text \<open>
  A dictionary literal with string keys, indexed by a Python value: a value that is not
  one of the keys (\<^verbatim>\<open>None\<close> and the integers included) raises \<^verbatim>\<open>KeyError\<close>.
\<close>

definition literal_getitem :: "(string \<times> 'v) list \<Rightarrow> pyval \<Rightarrow> 'v result" where
  "literal_getitem d k =
     (case k of
        PStr s \<Rightarrow> (case map_of d s of None \<Rightarrow> Inl KeyError | Some v \<Rightarrow> Inr v)
      | _ \<Rightarrow> Inl KeyError)"

text \<open>Python's truth value of an object, as \<^verbatim>\<open>or\<close> and \<^verbatim>\<open>not\<close> test it.\<close>

fun truthy :: "pyval \<Rightarrow> bool" where
  "truthy PNone = False"
| "truthy (PInt i) = (i \<noteq> 0)"
| "truthy (PStr s) = (s \<noteq> [])"

text \<open>\<^verbatim>\<open>'%s' % v\<close>: the decimal numeral of an integer, \<^verbatim>\<open>None\<close> as its name, a string as it is.\<close>

definition digit :: "nat \<Rightarrow> char" where
  "digit n = ''0123456789'' ! n"

fun str_nat :: "nat \<Rightarrow> string" where
  "str_nat n = (if n < 10 then [digit n] else str_nat (n div 10) @ [digit (n mod 10)])"

declare str_nat.simps [simp del]

definition str_int :: "int \<Rightarrow> string" where
  "str_int i = (if i < 0 then CHR ''-'' # str_nat (nat (- i)) else str_nat (nat i))"

fun py_str :: "pyval \<Rightarrow> string" where
  "py_str PNone = ''None''"
| "py_str (PInt i) = str_int i"
| "py_str (PStr s) = s"

section \<open>The rule translation\<close>

text \<open>
  A Neutron rule is a dictionary of \<open>pyval\<close>s. A value of the etcd rule is one of the
  rule's values, or the list \<^verbatim>\<open>port_spec\<close> of ports.
\<close>

type_synonym rule = "string \<rightharpoonup> pyval"

datatype etcd_val = Val pyval | Lst "pyval list"

type_synonym etcd_rule = "string \<rightharpoonup> etcd_val"

text \<open>
  \<^verbatim>\<open>_neutron_rule_to_etcd_rule(rule)\<close>, statement by statement. The local
  \<^verbatim>\<open>port_spec\<close> is \<open>None\<close> where Python has \<^verbatim>\<open>None\<close>. The log records are left out.
\<close>

definition neutron_rule_to_etcd_rule :: "rule \<Rightarrow> etcd_rule result" where
  "neutron_rule_to_etcd_rule rule =
     and_then (getitem rule ''ethertype'') (\<lambda>ethertype.
     and_then (literal_getitem [(''IPv4'', PInt 4), (''IPv6'', PInt 6)] ethertype) (\<lambda>ip_version.
     let etcd_rule = [''ip_version'' \<mapsto> Val ip_version] in
     and_then (getitem rule ''protocol'') (\<lambda>protocol.
     and_then
       (if protocol = PNone \<or> protocol = PInt (- 1) then Inr etcd_rule
        else if protocol = PStr ''icmp'' then
          and_then (literal_getitem [(''IPv4'', PStr ''icmp''), (''IPv6'', PStr ''icmpv6'')] ethertype)
            (\<lambda>p. Inr (etcd_rule(''protocol'' \<mapsto> Val p)))
        else Inr (etcd_rule(''protocol'' \<mapsto> Val protocol))) (\<lambda>etcd_rule.
     and_then (getitem rule ''remote_ip_prefix'') (\<lambda>net.
     and_then
       (if truthy net then Inr net
        else and_then (getitem rule ''remote_group_id'') (\<lambda>remote_group_id.
          if truthy remote_group_id then Inr net
          else literal_getitem [(''IPv4'', PStr ''0.0.0.0/0''), (''IPv6'', PStr ''::/0'')] ethertype)) (\<lambda>net.
     and_then
       (if protocol = PStr ''icmp'' then
          and_then (getitem rule ''port_range_min'') (\<lambda>icmp_type.
          let etcd_rule =
            (if icmp_type \<noteq> PNone \<and> icmp_type \<noteq> PInt (- 1)
             then etcd_rule(''icmp_type'' \<mapsto> Val icmp_type) else etcd_rule) in
          and_then (getitem rule ''port_range_max'') (\<lambda>icmp_code.
          let etcd_rule =
            (if icmp_code \<noteq> PNone \<and> icmp_code \<noteq> PInt (- 1)
             then etcd_rule(''icmp_code'' \<mapsto> Val icmp_code) else etcd_rule) in
          Inr (etcd_rule, None)))
        else
          and_then (getitem rule ''port_range_min'') (\<lambda>port_range_min.
          if port_range_min = PInt (- 1) then Inr (etcd_rule, Some [PStr ''1:65535''])
          else and_then (getitem rule ''port_range_max'') (\<lambda>port_range_max.
            if port_range_min = port_range_max then
              (if port_range_min \<noteq> PNone then Inr (etcd_rule, Some [port_range_min])
               else Inr (etcd_rule, None))
            else Inr (etcd_rule,
                   Some [PStr (py_str port_range_min @ '':'' @ py_str port_range_max)]))))
       (\<lambda>(etcd_rule, port_spec).
     and_then (getitem rule ''direction'') (\<lambda>direction.
     if direction = PStr ''ingress'' then
       and_then (getitem rule ''remote_group_id'') (\<lambda>remote_group_id.
       let etcd_rule =
          (if remote_group_id \<noteq> PNone then etcd_rule(''src_tag'' \<mapsto> Val remote_group_id)
           else etcd_rule);
          etcd_rule = (if net \<noteq> PNone then etcd_rule(''src_net'' \<mapsto> Val net) else etcd_rule);
          etcd_rule =
            (case port_spec of None \<Rightarrow> etcd_rule | Some ps \<Rightarrow> etcd_rule(''dst_ports'' \<mapsto> Lst ps))
        in Inr etcd_rule)
     else
       and_then (getitem rule ''remote_group_id'') (\<lambda>remote_group_id.
       let etcd_rule =
          (if remote_group_id \<noteq> PNone then etcd_rule(''dst_tag'' \<mapsto> Val remote_group_id)
           else etcd_rule);
          etcd_rule = (if net \<noteq> PNone then etcd_rule(''dst_net'' \<mapsto> Val net) else etcd_rule);
          etcd_rule =
            (case port_spec of None \<Rightarrow> etcd_rule | Some ps \<Rightarrow> etcd_rule(''dst_ports'' \<mapsto> Lst ps))
        in Inr etcd_rule)))))))))"

section \<open>Ports and profile identifiers\<close>

text \<open>
  A Neutron port, with the keys the file reads: \<^verbatim>\<open>port['id']\<close> is \<open>port_id\<close> and
  \<^verbatim>\<open>port['binding:host_id']\<close> is \<open>binding_host_id\<close>. The gateway of a fixed IP is \<open>None\<close>
  where Python has \<^verbatim>\<open>None\<close>. A port has all these keys, with values of these types, as
  Neutron delivers it; so has a security group below. Only the fields of a rule are read
  as Python values of any of the three kinds.
\<close>

record fixed_ip =
  ip_address :: string
  gateway :: "string option"

record port =
  port_id :: string
  device_id :: string
  binding_host_id :: string
  admin_state_up :: bool
  interface_name :: string
  mac_address :: string
  security_groups :: "string list"
  fixed_ips :: "fixed_ip list"

text \<open>\<^verbatim>\<open>sep.join(xs)\<close>, and \<^verbatim>\<open>s.split(sep)\<close> for a separator of one character.\<close>

fun py_join :: "string \<Rightarrow> string list \<Rightarrow> string" where
  "py_join sep [] = []"
| "py_join sep [x] = x"
| "py_join sep (x # y # ys) = x @ sep @ py_join sep (y # ys)"

fun py_split :: "char \<Rightarrow> string \<Rightarrow> string list" where
  "py_split sep [] = [[]]"
| "py_split sep (c # cs) =
     (if c = sep then [] # py_split sep cs
      else (case py_split sep cs of [] \<Rightarrow> [[c]] | w # ws \<Rightarrow> (c # w) # ws))"

definition port_profile_id :: "port \<Rightarrow> string" where
  "port_profile_id port = py_join ''_'' (security_groups port)"

definition profile_tags :: "string \<Rightarrow> string list" where
  "profile_tags profile_id = py_split CHR ''_'' profile_id"

text \<open>
  The names imported from \<^verbatim>\<open>calico.datamodel_v1\<close> are not defined in this file; the model
  takes them as parameters.
\<close>

record datamodel_v1 =
  READY_KEY :: string
  key_for_endpoint :: "string \<Rightarrow> string \<Rightarrow> string \<Rightarrow> string \<Rightarrow> string"
  key_for_profile_rules :: "string \<Rightarrow> string"
  key_for_profile_tags :: "string \<Rightarrow> string"
  key_for_config :: "string \<Rightarrow> string"

definition port_etcd_key :: "datamodel_v1 \<Rightarrow> port \<Rightarrow> string" where
  "port_etcd_key dm port =
     key_for_endpoint dm (binding_host_id port) ''openstack'' (device_id port) (port_id port)"

text \<open>
  \<^verbatim>\<open>port_etcd_data\<close>: the loop over \<^verbatim>\<open>port['fixed_ips']\<close> carries the dictionary
  \<^verbatim>\<open>data\<close> and the two lists of networks.
\<close>

type_synonym port_data = "string \<rightharpoonup> etcd_val"

fun port_etcd_data_loop ::
  "fixed_ip list \<Rightarrow> port_data \<Rightarrow> string list \<Rightarrow> string list
     \<Rightarrow> port_data \<times> string list \<times> string list" where
  "port_etcd_data_loop [] data ipv4_nets ipv6_nets = (data, ipv4_nets, ipv6_nets)"
| "port_etcd_data_loop (ip # ips) data ipv4_nets ipv6_nets =
     (if CHR '':'' \<in> set (ip_address ip) then
        port_etcd_data_loop ips
          (case gateway ip of None \<Rightarrow> data
           | Some g \<Rightarrow> data(''ipv6_gateway'' \<mapsto> Val (PStr g)))
          ipv4_nets (ipv6_nets @ [ip_address ip @ ''/128''])
      else
        port_etcd_data_loop ips
          (case gateway ip of None \<Rightarrow> data
           | Some g \<Rightarrow> data(''ipv4_gateway'' \<mapsto> Val (PStr g)))
          (ipv4_nets @ [ip_address ip @ ''/32'']) ipv6_nets)"

definition port_etcd_data :: "port \<Rightarrow> port_data" where
  "port_etcd_data port =
     (let data =
        [''state'' \<mapsto> Val (PStr (if admin_state_up port then ''active'' else ''inactive'')),
         ''name'' \<mapsto> Val (PStr (interface_name port)),
         ''mac'' \<mapsto> Val (PStr (mac_address port)),
         ''profile_id'' \<mapsto> Val (PStr (port_profile_id port))]
      in case port_etcd_data_loop (fixed_ips port) data [] [] of
           (data, ipv4_nets, ipv6_nets) \<Rightarrow>
             data(''ipv4_nets'' \<mapsto> Lst (map PStr ipv4_nets),
                  ''ipv6_nets'' \<mapsto> Lst (map PStr ipv6_nets)))"

section \<open>The transport object and its surroundings\<close>

text \<open>
  A security group as Neutron delivers it: its id and its list of rules. The document
  that \<^verbatim>\<open>profile_rules\<close> returns has the two lists \<^verbatim>\<open>inbound_rules\<close> and
  \<^verbatim>\<open>outbound_rules\<close>.
\<close>

record sg =
  sg_id :: string
  security_group_rules :: "rule list"

record profile_doc =
  inbound_rules :: "etcd_rule list"
  outbound_rules :: "etcd_rule list"

text \<open>
  A value in etcd is a plain string, or the string that \<^verbatim>\<open>json.dumps\<close> makes of a
  rules document or of a list of tags; \<^verbatim>\<open>json.dumps\<close> is kept symbolic.
\<close>

datatype etcd_value = Text string | Dumps_rules profile_doc | Dumps_tags "string list"

text \<open>
  What a call does besides returning: the calls of the etcd client, the semaphores it
  takes and releases, \<^verbatim>\<open>eventlet.sleep\<close> (in milliseconds), and the log records of level
  warning and error (the records of level info and debug are left out).
\<close>

datatype lock = Sgs_semaphore | Profile_semaphore

datatype event =
    Acquire lock
  | Release lock
  | Sleep nat
  | Log_warning string
  | Log_error string
  | Read string
  | Write string etcd_value
  | Delete string

text \<open>
  The state has the four attributes that the methods read, \<open>None\<close> for an attribute that
  the object does not have; the content of etcd; the events so far; and \<open>incoming\<close>, the
  security groups that other green threads store in the cache at each of the coming
  calls of \<^verbatim>\<open>eventlet.sleep\<close>. The assignment in \<^verbatim>\<open>security_group_updated\<close> is the only
  statement of the file that changes the cache, and a green thread gives way to the others
  in the file's explicit \<^verbatim>\<open>eventlet.sleep\<close>; a semaphore is free whenever a thread runs.
  A Python set is iterated in an order of its own: \<open>needed_profiles\<close> is the list of its
  elements in that order.
\<close>

record world =
  sgs :: "(string \<rightharpoonup> sg) option"
  sgs_semaphore :: "unit option"
  needed_profiles :: "string list option"
  profile_semaphore :: "unit option"
  store :: "string \<rightharpoonup> etcd_value"
  trace :: "event list"
  incoming :: "sg list list"

text \<open>
  \<^verbatim>\<open>__init__\<close> assigns \<^verbatim>\<open>self.driver\<close> and \<^verbatim>\<open>self.client\<close> and spawns the resync thread;
  it assigns none of the four attributes above. The content of etcd and the updates to
  come are given by the surroundings.
\<close>

definition CalicoTransportEtcd :: "(string \<rightharpoonup> etcd_value) \<Rightarrow> sg list list \<Rightarrow> world" where
  "CalicoTransportEtcd etcd updates =
     \<lparr>sgs = None, sgs_semaphore = None, needed_profiles = None, profile_semaphore = None,
      store = etcd, trace = [], incoming = updates\<rparr>"

definition emit :: "event \<Rightarrow> world \<Rightarrow> world" where
  "emit ev w = w\<lparr>trace := trace w @ [ev]\<rparr>"

text \<open>The etcd client: \<^verbatim>\<open>read\<close> and \<^verbatim>\<open>delete\<close> raise \<^verbatim>\<open>EtcdKeyNotFound\<close> on a missing key.\<close>

definition client_read :: "string \<Rightarrow> world \<Rightarrow> etcd_value result \<times> world" where
  "client_read key w =
     (case store w key of
        None \<Rightarrow> (Inl EtcdKeyNotFound, emit (Read key) w)
      | Some v \<Rightarrow> (Inr v, emit (Read key) w))"

definition client_write :: "string \<Rightarrow> etcd_value \<Rightarrow> world \<Rightarrow> world" where
  "client_write key v w = emit (Write key v) (w\<lparr>store := (store w)(key \<mapsto> v)\<rparr>)"

definition client_delete :: "string \<Rightarrow> world \<Rightarrow> unit result \<times> world" where
  "client_delete key w =
     (case store w key of
        None \<Rightarrow> (Inl EtcdKeyNotFound, emit (Delete key) w)
      | Some v \<Rightarrow> (Inr (), emit (Delete key) (w\<lparr>store := (store w)(key := None)\<rparr>)))"

text \<open>\<^verbatim>\<open>self.sgs[sg['id']] = sg\<close> for each group of a batch, and the sleep that lets it happen.\<close>

definition deliver :: "sg list \<Rightarrow> (string \<rightharpoonup> sg) \<Rightarrow> (string \<rightharpoonup> sg)" where
  "deliver batch cache = fold (\<lambda>g c. c(sg_id g \<mapsto> g)) batch cache"

definition eventlet_sleep :: "nat \<Rightarrow> world \<Rightarrow> world" where
  "eventlet_sleep ms w =
     (let w = emit (Sleep ms) w in
      case incoming w of
        [] \<Rightarrow> w
      | batch # batches \<Rightarrow> w\<lparr>sgs := map_option (deliver batch) (sgs w), incoming := batches\<rparr>)"

section \<open>Profiles\<close>

text \<open>
  The loop \<^verbatim>\<open>while rules is None\<close> of \<^verbatim>\<open>profile_rules\<close>. The counter \<^verbatim>\<open>retries\<close> starts
  at 20 and the loop is left when it reaches 0, so it is a natural number.
\<close>

function profile_rules_while :: "world \<Rightarrow> string \<Rightarrow> nat \<Rightarrow> rule list result \<times> world" where
  "profile_rules_while w sgid retries =
     (case sgs_semaphore w of
        None \<Rightarrow> (Inl AttributeError, w)
      | Some _ \<Rightarrow>
          (let w = emit (Acquire Sgs_semaphore) w in
           case sgs w of
             None \<Rightarrow> (Inl AttributeError, emit (Release Sgs_semaphore) w)
           | Some cache \<Rightarrow>
               (case cache sgid of
                  Some g \<Rightarrow> (Inr (security_group_rules g), emit (Release Sgs_semaphore) w)
                | None \<Rightarrow>
                    (let w = emit (Log_warning sgid) (emit (Release Sgs_semaphore) w);
                         retries = retries - 1
                     in if retries = 0 then (Inl KeyError, emit (Log_error sgid) w)
                        else profile_rules_while (eventlet_sleep 200 w) sgid retries))))"
  by pat_completeness auto
termination
  by (relation "measure (\<lambda>(w, sgid, retries). retries)") auto

declare profile_rules_while.simps [simp del]

text \<open>The loop \<^verbatim>\<open>for rule in rules\<close>.\<close>

fun profile_rules_for_rule ::
  "rule list \<Rightarrow> etcd_rule list \<Rightarrow> etcd_rule list \<Rightarrow> (etcd_rule list \<times> etcd_rule list) result" where
  "profile_rules_for_rule [] inbound outbound = Inr (inbound, outbound)"
| "profile_rules_for_rule (rule # rules) inbound outbound =
     and_then (neutron_rule_to_etcd_rule rule) (\<lambda>etcd_rule.
     and_then (getitem rule ''direction'') (\<lambda>direction.
     if direction = PStr ''ingress''
     then profile_rules_for_rule rules (inbound @ [etcd_rule]) outbound
     else profile_rules_for_rule rules inbound (outbound @ [etcd_rule])))"

text \<open>The loop \<^verbatim>\<open>for sgid in self.profile_tags(profile_id)\<close>.\<close>

fun profile_rules_for_sgid ::
  "world \<Rightarrow> string list \<Rightarrow> etcd_rule list \<Rightarrow> etcd_rule list \<Rightarrow> profile_doc result \<times> world" where
  "profile_rules_for_sgid w [] inbound outbound =
     (Inr \<lparr>inbound_rules = inbound, outbound_rules = outbound\<rparr>, w)"
| "profile_rules_for_sgid w (sgid # sgids) inbound outbound =
     (case profile_rules_while w sgid 20 of
        (Inl e, w) \<Rightarrow> (Inl e, w)
      | (Inr rules, w) \<Rightarrow>
          (case profile_rules_for_rule rules inbound outbound of
             Inl e \<Rightarrow> (Inl e, w)
           | Inr (inbound, outbound) \<Rightarrow> profile_rules_for_sgid w sgids inbound outbound))"

definition profile_rules :: "world \<Rightarrow> string \<Rightarrow> profile_doc result \<times> world" where
  "profile_rules w profile_id = profile_rules_for_sgid w (profile_tags profile_id) [] []"

definition write_profile_to_etcd :: "datamodel_v1 \<Rightarrow> world \<Rightarrow> string \<Rightarrow> unit result \<times> world" where
  "write_profile_to_etcd dm w profile_id =
     (case profile_rules w profile_id of
        (Inl e, w) \<Rightarrow> (Inl e, w)
      | (Inr doc, w) \<Rightarrow>
          (let w = client_write (key_for_profile_rules dm profile_id) (Dumps_rules doc) w;
               w = client_write (key_for_profile_tags dm profile_id)
                     (Dumps_tags (profile_tags profile_id)) w
           in (Inr (), w)))"

section \<open>The entry points\<close>

definition endpoint_deleted :: "datamodel_v1 \<Rightarrow> world \<Rightarrow> port \<Rightarrow> unit result \<times> world" where
  "endpoint_deleted dm w port =
     (let key = port_etcd_key dm port in
      case client_delete key w of
        (Inl e, w) \<Rightarrow> (if e = EtcdKeyNotFound then (Inr (), w) else (Inl e, w))
      | (Inr u, w) \<Rightarrow> (Inr (), w))"

text \<open>The loop \<^verbatim>\<open>for profile_id in profiles_to_rewrite\<close>.\<close>

fun rewrite_profiles :: "datamodel_v1 \<Rightarrow> world \<Rightarrow> string list \<Rightarrow> unit result \<times> world" where
  "rewrite_profiles dm w [] = (Inr (), w)"
| "rewrite_profiles dm w (profile_id # profile_ids) =
     (case write_profile_to_etcd dm w profile_id of
        (Inl e, w) \<Rightarrow> (Inl e, w)
      | (Inr u, w) \<Rightarrow> rewrite_profiles dm w profile_ids)"

text \<open>
  \<^verbatim>\<open>security_group_updated\<close>. The set \<^verbatim>\<open>profiles_to_rewrite\<close> holds each profile once;
  it is iterated here in the order of \<open>needed_profiles\<close>.
\<close>

definition security_group_updated :: "datamodel_v1 \<Rightarrow> world \<Rightarrow> sg \<Rightarrow> unit result \<times> world" where
  "security_group_updated dm w sg =
     (case sgs_semaphore w of
        None \<Rightarrow> (Inl AttributeError, w)
      | Some _ \<Rightarrow>
          (let w = emit (Acquire Sgs_semaphore) w in
           case sgs w of
             None \<Rightarrow> (Inl AttributeError, emit (Release Sgs_semaphore) w)
           | Some cache \<Rightarrow>
               (let w = emit (Release Sgs_semaphore) (w\<lparr>sgs := Some (cache(sg_id sg \<mapsto> sg))\<rparr>) in
                case profile_semaphore w of
                  None \<Rightarrow> (Inl AttributeError, w)
                | Some _ \<Rightarrow>
                    (let w = emit (Acquire Profile_semaphore) w in
                     case needed_profiles w of
                       None \<Rightarrow> (Inl AttributeError, emit (Release Profile_semaphore) w)
                     | Some profiles \<Rightarrow>
                         (let profiles_to_rewrite =
                                remdups (filter (\<lambda>profile_id. sg_id sg \<in> set (profile_tags profile_id))
                                  profiles);
                              w = emit (Release Profile_semaphore) w
                          in rewrite_profiles dm w profiles_to_rewrite)))))"

text \<open>
  \<^verbatim>\<open>v == s\<close> for what was read from etcd, or \<^verbatim>\<open>None\<close>, and one of the plain words
  \<^verbatim>\<open>'tap'\<close> and \<^verbatim>\<open>'true'\<close>: the string that \<^verbatim>\<open>json.dumps\<close> makes of a document is
  not such a word.
\<close>

definition is_text :: "string \<Rightarrow> etcd_value option \<Rightarrow> bool" where
  "is_text s v = (case v of Some (Text t) \<Rightarrow> t = s | _ \<Rightarrow> False)"

text \<open>
  \<^verbatim>\<open>provide_felix_config\<close>: the two reads are in one \<^verbatim>\<open>try\<close>, so a missing
  \<^verbatim>\<open>InterfacePrefix\<close> leaves \<^verbatim>\<open>ready\<close> at \<^verbatim>\<open>None\<close> without a second read.
\<close>

definition provide_felix_config :: "datamodel_v1 \<Rightarrow> world \<Rightarrow> unit result \<times> world" where
  "provide_felix_config dm w =
     (let iface_pfx_key = key_for_config dm ''InterfacePrefix'' in
      case
        (case client_read iface_pfx_key w of
           (Inl e, w) \<Rightarrow> (if e = EtcdKeyNotFound then Inr (None, None) else Inl e, w)
         | (Inr prefix, w) \<Rightarrow>
             (case client_read (READY_KEY dm) w of
                (Inl e, w) \<Rightarrow> (if e = EtcdKeyNotFound then Inr (Some prefix, None) else Inl e, w)
              | (Inr ready, w) \<Rightarrow> (Inr (Some prefix, Some ready), w)))
      of
        (Inl e, w) \<Rightarrow> (Inl e, w)
      | (Inr (prefix, ready), w) \<Rightarrow>
          (let w = (if \<not> is_text ''tap'' prefix
                    then client_write iface_pfx_key (Text ''tap'') w else w);
               w = (if \<not> is_text ''true'' ready
                    then client_write (READY_KEY dm) (Text ''true'') w else w)
           in (Inr (), w)))"

section \<open>Vocabulary of the properties, and examples\<close>

text \<open>
  The side of the etcd rule that the remote selector of a rule goes to, and the CIDR
  that stands for any address of an IP family.
\<close>

definition tag_field :: "pyval \<Rightarrow> string" where
  "tag_field direction = (if direction = PStr ''ingress'' then ''src_tag'' else ''dst_tag'')"

definition net_field :: "pyval \<Rightarrow> string" where
  "net_field direction = (if direction = PStr ''ingress'' then ''src_net'' else ''dst_net'')"

definition any_address :: "string \<Rightarrow> string" where
  "any_address ethertype = (if ethertype = ''IPv4'' then ''0.0.0.0/0'' else ''::/0'')"

text \<open>A result that is a value, and the value satisfies \<open>P\<close>.\<close>

definition holds :: "'a result \<Rightarrow> ('a \<Rightarrow> bool) \<Rightarrow> bool" where
  "holds m P = (case m of Inl e \<Rightarrow> False | Inr v \<Rightarrow> P v)"

text \<open>
  A rule is well formed when it has the seven fields that the translation reads and its
  ethertype is \<^verbatim>\<open>IPv4\<close> or \<^verbatim>\<open>IPv6\<close>; a security group is well formed when its rules are.
\<close>

definition rule_fields :: "string list" where
  "rule_fields = [''direction'', ''ethertype'', ''protocol'', ''remote_group_id'',
     ''remote_ip_prefix'', ''port_range_min'', ''port_range_max'']"

definition well_formed :: "rule \<Rightarrow> bool" where
  "well_formed rule \<longleftrightarrow>
     (\<forall>k\<in>set rule_fields. rule k \<noteq> None) \<and>
     (rule ''ethertype'' = Some (PStr ''IPv4'') \<or> rule ''ethertype'' = Some (PStr ''IPv6''))"

definition well_formed_sg :: "sg \<Rightarrow> bool" where
  "well_formed_sg g \<longleftrightarrow> (\<forall>rule\<in>set (security_group_rules g). well_formed rule)"

text \<open>
  The number of sleeps after which the group \<open>sgid\<close> is in the cache, when one of the
  coming batches holds it: one for each batch up to the first that holds it. And the cache
  as it is then.
\<close>

definition sleeps_until :: "string \<Rightarrow> sg list list \<Rightarrow> nat" where
  "sleeps_until sgid batches =
     Suc (length (takeWhile (\<lambda>batch. sgid \<notin> sg_id ` set batch) batches))"

definition arrived_cache ::
  "string \<Rightarrow> sg list list \<Rightarrow> (string \<rightharpoonup> sg) \<Rightarrow> (string \<rightharpoonup> sg)" where
  "arrived_cache sgid batches cache =
     fold deliver (take (sleeps_until sgid batches) batches) cache"

text \<open>The events of one lookup in the cache, under the semaphore of the cache.\<close>

definition attempt :: "event list" where
  "attempt = [Acquire Sgs_semaphore, Release Sgs_semaphore]"

text \<open>
  The rules document of a profile in the words of the specification: the rules of the
  groups in the order of the tags, the rules of one group in their own order, each
  translated and put in the inbound or the outbound list by its direction. To be compared
  with what \<open>profile_rules\<close> computes.
\<close>

definition ingress :: "rule \<Rightarrow> bool" where
  "ingress rule \<longleftrightarrow> rule ''direction'' = Some (PStr ''ingress'')"

definition translated :: "rule \<Rightarrow> etcd_rule" where
  "translated rule = (case neutron_rule_to_etcd_rule rule of Inl e \<Rightarrow> Map.empty | Inr r \<Rightarrow> r)"

definition group_rules :: "(string \<rightharpoonup> sg) \<Rightarrow> string list \<Rightarrow> rule list" where
  "group_rules cache tags =
     concat (map (\<lambda>t. case cache t of None \<Rightarrow> [] | Some g \<Rightarrow> security_group_rules g) tags)"

definition expected_profile_doc :: "(string \<rightharpoonup> sg) \<Rightarrow> string \<Rightarrow> profile_doc" where
  "expected_profile_doc cache profile_id =
     \<lparr>inbound_rules =
        map translated (filter ingress (group_rules cache (profile_tags profile_id))),
      outbound_rules =
        map translated
          (filter (\<lambda>rule. \<not> ingress rule) (group_rules cache (profile_tags profile_id)))\<rparr>"

text \<open>
  The two documents of a profile with their keys, the events of one rewrite of a profile
  whose groups are all in the cache, the profiles that a change of the group \<open>sg\<close>
  affects, and the writes among a list of events.
\<close>

definition profile_documents ::
  "datamodel_v1 \<Rightarrow> (string \<rightharpoonup> sg) \<Rightarrow> string \<Rightarrow> (string \<times> etcd_value) list" where
  "profile_documents dm cache profile_id =
     [(key_for_profile_rules dm profile_id, Dumps_rules (expected_profile_doc cache profile_id)),
      (key_for_profile_tags dm profile_id, Dumps_tags (profile_tags profile_id))]"

definition rewrite_events :: "datamodel_v1 \<Rightarrow> (string \<rightharpoonup> sg) \<Rightarrow> string \<Rightarrow> event list" where
  "rewrite_events dm cache profile_id =
     concat (map (\<lambda>t. attempt) (profile_tags profile_id)) @
     map (\<lambda>(k, v). Write k v) (profile_documents dm cache profile_id)"

definition affected :: "sg \<Rightarrow> string list \<Rightarrow> string list" where
  "affected sg profiles =
     remdups (filter (\<lambda>profile_id. sg_id sg \<in> set (profile_tags profile_id)) profiles)"

fun writes :: "event list \<Rightarrow> (string \<times> etcd_value) list" where
  "writes [] = []"
| "writes (Write k v # es) = (k, v) # writes es"
| "writes (e # es) = writes es"

text \<open>The object has none of the four attributes.\<close>

definition unset :: "world \<Rightarrow> bool" where
  "unset w \<longleftrightarrow>
     sgs w = None \<and> sgs_semaphore w = None \<and> needed_profiles w = None \<and>
     profile_semaphore w = None"

text \<open>Rules for the examples.\<close>

definition rule_any_ipv4 :: rule where
  "rule_any_ipv4 =
     [''direction'' \<mapsto> PStr ''ingress'', ''ethertype'' \<mapsto> PStr ''IPv4'',
      ''protocol'' \<mapsto> PNone, ''remote_group_id'' \<mapsto> PNone, ''remote_ip_prefix'' \<mapsto> PNone,
      ''port_range_min'' \<mapsto> PNone, ''port_range_max'' \<mapsto> PNone]"

definition rule_icmp_ipv6 :: rule where
  "rule_icmp_ipv6 =
     [''direction'' \<mapsto> PStr ''ingress'', ''ethertype'' \<mapsto> PStr ''IPv6'',
      ''protocol'' \<mapsto> PStr ''icmp'', ''remote_group_id'' \<mapsto> PNone, ''remote_ip_prefix'' \<mapsto> PNone,
      ''port_range_min'' \<mapsto> PInt 3, ''port_range_max'' \<mapsto> PInt 4]"

definition rule_group_and_prefix :: rule where
  "rule_group_and_prefix =
     [''direction'' \<mapsto> PStr ''ingress'', ''ethertype'' \<mapsto> PStr ''IPv4'',
      ''protocol'' \<mapsto> PNone, ''remote_group_id'' \<mapsto> PStr ''sg-1'',
      ''remote_ip_prefix'' \<mapsto> PStr ''10.0.0.0/8'',
      ''port_range_min'' \<mapsto> PNone, ''port_range_max'' \<mapsto> PNone]"

definition rule_tcp_range :: rule where
  "rule_tcp_range =
     [''direction'' \<mapsto> PStr ''egress'', ''ethertype'' \<mapsto> PStr ''IPv4'',
      ''protocol'' \<mapsto> PStr ''tcp'', ''remote_group_id'' \<mapsto> PStr ''sg-1'',
      ''remote_ip_prefix'' \<mapsto> PNone,
      ''port_range_min'' \<mapsto> PInt 8000, ''port_range_max'' \<mapsto> PInt 8080]"

text \<open>
  An instance of the parameters for the examples, with the key layout of the
  specification (directories under \<^verbatim>\<open>/calico/v1\<close>).
\<close>

definition example_datamodel :: datamodel_v1 where
  "example_datamodel =
     \<lparr>READY_KEY = ''/calico/v1/Ready'',
      key_for_endpoint = (\<lambda>host orchestrator workload endpoint.
        ''/calico/v1/host/'' @ host @ ''/workload/'' @ orchestrator @ ''/'' @ workload @
        ''/endpoint/'' @ endpoint),
      key_for_profile_rules =
        (\<lambda>profile_id. ''/calico/v1/policy/profile/'' @ profile_id @ ''/rules''),
      key_for_profile_tags =
        (\<lambda>profile_id. ''/calico/v1/policy/profile/'' @ profile_id @ ''/tags''),
      key_for_config = (\<lambda>name. ''/calico/v1/config/'' @ name)\<rparr>"

definition port_no_groups :: port where
  "port_no_groups =
     \<lparr>port_id = ''p1'', device_id = ''vm1'', binding_host_id = ''host1'',
      admin_state_up = True, interface_name = ''tap1'', mac_address = ''fa:16:3e:00:00:01'',
      security_groups = [], fixed_ips = []\<rparr>"

definition port_two_groups :: port where
  "port_two_groups =
     \<lparr>port_id = ''p2'', device_id = ''vm2'', binding_host_id = ''host1'',
      admin_state_up = True, interface_name = ''tap2'', mac_address = ''fa:16:3e:00:00:02'',
      security_groups = [''a'', ''b''],
      fixed_ips = [\<lparr>ip_address = ''10.0.0.2'', gateway = Some ''10.0.0.1''\<rparr>,
                   \<lparr>ip_address = ''fd00::2'', gateway = None\<rparr>]\<rparr>"

definition etcd_configured :: "string \<rightharpoonup> etcd_value" where
  "etcd_configured =
     [''/calico/v1/config/InterfacePrefix'' \<mapsto> Text ''tap'', ''/calico/v1/Ready'' \<mapsto> Text ''true'']"

definition sg_a :: sg where
  "sg_a = \<lparr>sg_id = ''a'', security_group_rules = [rule_any_ipv4]\<rparr>"

definition sg_b :: sg where
  "sg_b = \<lparr>sg_id = ''b'', security_group_rules = [rule_tcp_range, rule_icmp_ipv6]\<rparr>"

text \<open>
  A state with the four attributes: the group \<^verbatim>\<open>a\<close> is in the cache, three profiles are
  needed, and \<open>updates\<close> arrive during the coming sleeps. And a state with an empty cache.
\<close>

definition world_a :: "sg list list \<Rightarrow> world" where
  "world_a updates =
     \<lparr>sgs = Some [''a'' \<mapsto> sg_a], sgs_semaphore = Some (),
      needed_profiles = Some [''a_b'', ''b'', ''a''], profile_semaphore = Some (),
      store = Map.empty, trace = [], incoming = updates\<rparr>"

definition world_empty_cache :: world where
  "world_empty_cache =
     \<lparr>sgs = Some Map.empty, sgs_semaphore = Some (), needed_profiles = Some [''a_b'', ''a''],
      profile_semaphore = Some (), store = Map.empty, trace = [], incoming = []\<rparr>"

section \<open>Properties of the rule translation\<close>

lemma holds_simps:
  "holds (Inr v) P = P v"
  "holds (Inl e) P = False"
  "holds (and_then m f) P = holds m (\<lambda>v. holds (f v) P)"
  "holds (if c then a else b) P = (if c then holds a P else holds b P)"
  "holds (getitem d k) P = (case d k of None \<Rightarrow> False | Some v \<Rightarrow> P v)"
  "holds (let x = y in g x) P = (let x = y in holds (g x) P)"
  by (auto simp: holds_def and_then_def getitem_def split: sum.splits option.splits)

lemma holds_literal_getitem:
  "s = a \<or> s = b \<Longrightarrow>
   holds (literal_getitem [(a, x), (b, y)] (PStr s)) P = P (if s = a then x else y)"
  by (auto simp: holds_def literal_getitem_def)

lemma holdsD: "holds m P \<Longrightarrow> \<exists>v. m = Inr v \<and> P v"
  by (cases m) (simp_all add: holds_def)

lemma if_apply: "(if c then f else g) k = (if c then f k else g k)"
  by simp

lemmas translate_wp = holds_simps holds_literal_getitem Let_def if_apply

lemmas translate_defs = neutron_rule_to_etcd_rule_def and_then_def getitem_def literal_getitem_def

text \<open>
  The translation returns a rule for every dictionary that has the seven fields and an
  ethertype of \<^verbatim>\<open>IPv4\<close> or \<^verbatim>\<open>IPv6\<close>.
\<close>

lemma translate_total:
  assumes "rule ''direction'' = Some direction"
    and "rule ''ethertype'' = Some (PStr ethertype)"
    and "ethertype = ''IPv4'' \<or> ethertype = ''IPv6''"
    and "rule ''protocol'' = Some protocol"
    and "rule ''remote_group_id'' = Some remote_group_id"
    and "rule ''remote_ip_prefix'' = Some remote_ip_prefix"
    and "rule ''port_range_min'' = Some lo"
    and "rule ''port_range_max'' = Some hi"
  shows "\<exists>e. neutron_rule_to_etcd_rule rule = Inr e"
proof -
  have "holds (neutron_rule_to_etcd_rule rule) (\<lambda>e. True)"
    unfolding neutron_rule_to_etcd_rule_def
    by (simp add: translate_wp assms split del: if_split cong: if_cong)
  then show ?thesis by (auto dest: holdsD)
qed

text \<open>
  C1. An ingress rule with ethertype IPv4 and with protocol, remote group, remote prefix
  and both port bounds \<^verbatim>\<open>None\<close> is translated to the dictionary with the two entries
  \<^verbatim>\<open>ip_version: 4\<close> and \<^verbatim>\<open>src_net: "0.0.0.0/0"\<close>: the two maps are equal, so the result
  has no other key.
\<close>

theorem translate_any_ipv4_ingress:
  assumes "rule ''direction'' = Some (PStr ''ingress'')"
    and "rule ''ethertype'' = Some (PStr ''IPv4'')"
    and "rule ''protocol'' = Some PNone"
    and "rule ''remote_group_id'' = Some PNone"
    and "rule ''remote_ip_prefix'' = Some PNone"
    and "rule ''port_range_min'' = Some PNone"
    and "rule ''port_range_max'' = Some PNone"
  shows "neutron_rule_to_etcd_rule rule =
    Inr [''ip_version'' \<mapsto> Val (PInt 4), ''src_net'' \<mapsto> Val (PStr ''0.0.0.0/0'')]"
  using assms by (simp add: translate_defs)

theorem translate_any_ipv4_ingress_witness:
  "rule_any_ipv4 ''direction'' = Some (PStr ''ingress'') \<and>
   rule_any_ipv4 ''ethertype'' = Some (PStr ''IPv4'') \<and>
   neutron_rule_to_etcd_rule rule_any_ipv4 =
     Inr [''ip_version'' \<mapsto> Val (PInt 4), ''src_net'' \<mapsto> Val (PStr ''0.0.0.0/0'')]"
  using translate_any_ipv4_ingress [of rule_any_ipv4] by (simp add: rule_any_ipv4_def)

text \<open>
  C2, as the claim states it, fails: for the ICMP rule over IPv6 with type 3 and code 4
  and no remote group and no remote prefix, the result is not the dictionary of the four
  entries \<^verbatim>\<open>ip_version\<close>, \<^verbatim>\<open>protocol\<close>, \<^verbatim>\<open>icmp_type\<close> and \<^verbatim>\<open>icmp_code\<close>.
\<close>

theorem translate_icmp_ipv6_not_four_fields:
  "neutron_rule_to_etcd_rule rule_icmp_ipv6 \<noteq>
   Inr [''ip_version'' \<mapsto> Val (PInt 6), ''protocol'' \<mapsto> Val (PStr ''icmpv6''),
        ''icmp_type'' \<mapsto> Val (PInt 3), ''icmp_code'' \<mapsto> Val (PInt 4)]"
proof
  assume "neutron_rule_to_etcd_rule rule_icmp_ipv6 =
   Inr [''ip_version'' \<mapsto> Val (PInt 6), ''protocol'' \<mapsto> Val (PStr ''icmpv6''),
        ''icmp_type'' \<mapsto> Val (PInt 3), ''icmp_code'' \<mapsto> Val (PInt 4)]"
  then have "[''ip_version'' \<mapsto> Val (PInt 6), ''protocol'' \<mapsto> Val (PStr ''icmpv6''),
        ''icmp_type'' \<mapsto> Val (PInt 3), ''icmp_code'' \<mapsto> Val (PInt 4),
        ''src_net'' \<mapsto> Val (PStr ''::/0'')]
     = [''ip_version'' \<mapsto> Val (PInt 6), ''protocol'' \<mapsto> Val (PStr ''icmpv6''),
        ''icmp_type'' \<mapsto> Val (PInt 3), ''icmp_code'' \<mapsto> Val (PInt 4)]"
    by (simp add: translate_defs rule_icmp_ipv6_def)
  then have "[''ip_version'' \<mapsto> Val (PInt 6), ''protocol'' \<mapsto> Val (PStr ''icmpv6''),
        ''icmp_type'' \<mapsto> Val (PInt 3), ''icmp_code'' \<mapsto> Val (PInt 4),
        ''src_net'' \<mapsto> Val (PStr ''::/0'')] ''src_net''
     = [''ip_version'' \<mapsto> Val (PInt 6), ''protocol'' \<mapsto> Val (PStr ''icmpv6''),
        ''icmp_type'' \<mapsto> Val (PInt 3), ''icmp_code'' \<mapsto> Val (PInt 4)] ''src_net''"
    by (rule fun_cong)
  then show False by simp
qed

text \<open>
  C2, amended. An ingress ICMP rule with ethertype IPv6, port_range_min 3, port_range_max
  4 and with remote group and remote prefix \<^verbatim>\<open>None\<close> is translated to the dictionary of
  five entries: \<^verbatim>\<open>ip_version: 6\<close>, \<^verbatim>\<open>protocol: "icmpv6"\<close>, \<^verbatim>\<open>icmp_type: 3\<close>,
  \<^verbatim>\<open>icmp_code: 4\<close> and, since no remote selector is given, \<^verbatim>\<open>src_net: "::/0"\<close>.
\<close>

theorem translate_icmp_ipv6_ingress:
  assumes "rule ''direction'' = Some (PStr ''ingress'')"
    and "rule ''ethertype'' = Some (PStr ''IPv6'')"
    and "rule ''protocol'' = Some (PStr ''icmp'')"
    and "rule ''remote_group_id'' = Some PNone"
    and "rule ''remote_ip_prefix'' = Some PNone"
    and "rule ''port_range_min'' = Some (PInt 3)"
    and "rule ''port_range_max'' = Some (PInt 4)"
  shows "neutron_rule_to_etcd_rule rule =
    Inr [''ip_version'' \<mapsto> Val (PInt 6), ''protocol'' \<mapsto> Val (PStr ''icmpv6''),
         ''icmp_type'' \<mapsto> Val (PInt 3), ''icmp_code'' \<mapsto> Val (PInt 4),
         ''src_net'' \<mapsto> Val (PStr ''::/0'')]"
  using assms by (simp add: translate_defs)

theorem translate_icmp_ipv6_ingress_witness:
  "rule_icmp_ipv6 ''protocol'' = Some (PStr ''icmp'') \<and>
   rule_icmp_ipv6 ''ethertype'' = Some (PStr ''IPv6'') \<and>
   neutron_rule_to_etcd_rule rule_icmp_ipv6 =
    Inr [''ip_version'' \<mapsto> Val (PInt 6), ''protocol'' \<mapsto> Val (PStr ''icmpv6''),
         ''icmp_type'' \<mapsto> Val (PInt 3), ''icmp_code'' \<mapsto> Val (PInt 4),
         ''src_net'' \<mapsto> Val (PStr ''::/0'')]"
  using translate_icmp_ipv6_ingress [of rule_icmp_ipv6] by (simp add: rule_icmp_ipv6_def)

text \<open>
  C3, as the claim states it, fails: for an ingress rule that supplies both a remote
  group and a remote prefix the result has both \<^verbatim>\<open>src_tag\<close> and \<^verbatim>\<open>src_net\<close>; the group
  does not take precedence.
\<close>

theorem translate_group_and_prefix_sets_both:
  "neutron_rule_to_etcd_rule rule_group_and_prefix =
     Inr [''ip_version'' \<mapsto> Val (PInt 4), ''src_tag'' \<mapsto> Val (PStr ''sg-1''),
          ''src_net'' \<mapsto> Val (PStr ''10.0.0.0/8'')]"
  by (simp add: translate_defs rule_group_and_prefix_def)

text \<open>
  C3, amended. For every rule with the seven fields and an ethertype of IPv4 or IPv6,
  whose remote group and remote prefix are each \<^verbatim>\<open>None\<close> or a value that Python counts as
  true (a non-empty string): on the side the direction selects (\<^verbatim>\<open>src\<close> for ingress,
  \<^verbatim>\<open>dst\<close> otherwise) the tag field is set exactly when a remote group is supplied, to that
  group; the net field is the remote prefix when a prefix is supplied, the any-address
  CIDR of the family when neither a group nor a prefix is supplied, and is not set when
  only a group is supplied. Hence exactly one of the two fields is set when at most one
  selector is supplied, and both are set when both are supplied.
\<close>

theorem translate_tag_and_net:
  assumes "rule ''direction'' = Some direction"
    and "rule ''ethertype'' = Some (PStr ethertype)"
    and "ethertype = ''IPv4'' \<or> ethertype = ''IPv6''"
    and "rule ''protocol'' = Some protocol"
    and "rule ''remote_group_id'' = Some remote_group_id"
    and "rule ''remote_ip_prefix'' = Some remote_ip_prefix"
    and "rule ''port_range_min'' = Some port_range_min"
    and "rule ''port_range_max'' = Some port_range_max"
    and "remote_group_id = PNone \<or> truthy remote_group_id"
    and "remote_ip_prefix = PNone \<or> truthy remote_ip_prefix"
  shows "\<exists>e. neutron_rule_to_etcd_rule rule = Inr e \<and>
    e (tag_field direction) =
      (if remote_group_id = PNone then None else Some (Val remote_group_id)) \<and>
    e (net_field direction) =
      (if remote_ip_prefix \<noteq> PNone then Some (Val remote_ip_prefix)
       else if remote_group_id \<noteq> PNone then None
       else Some (Val (PStr (any_address ethertype))))"
proof (rule holdsD)
  show "holds (neutron_rule_to_etcd_rule rule) (\<lambda>e.
    e (tag_field direction) =
      (if remote_group_id = PNone then None else Some (Val remote_group_id)) \<and>
    e (net_field direction) =
      (if remote_ip_prefix \<noteq> PNone then Some (Val remote_ip_prefix)
       else if remote_group_id \<noteq> PNone then None
       else Some (Val (PStr (any_address ethertype)))))"
    unfolding neutron_rule_to_etcd_rule_def
    using assms(9,10)
    apply (simp add: translate_wp assms(1-8) tag_field_def net_field_def any_address_def
        split del: if_split cong: if_cong)
    apply auto
    done
qed

theorem translate_tag_and_net_witness:
  "rule_tcp_range ''remote_group_id'' = Some (PStr ''sg-1'') \<and>
   rule_tcp_range ''remote_ip_prefix'' = Some PNone \<and>
   (\<exists>e. neutron_rule_to_etcd_rule rule_tcp_range = Inr e \<and>
      e ''dst_tag'' = Some (Val (PStr ''sg-1'')) \<and> e ''dst_net'' = None) \<and>
   (\<exists>e. neutron_rule_to_etcd_rule rule_any_ipv4 = Inr e \<and>
      e ''src_tag'' = None \<and> e ''src_net'' = Some (Val (PStr ''0.0.0.0/0''))) \<and>
   (\<exists>e. neutron_rule_to_etcd_rule rule_group_and_prefix = Inr e \<and>
      e ''src_tag'' = Some (Val (PStr ''sg-1'')) \<and>
      e ''src_net'' = Some (Val (PStr ''10.0.0.0/8'')))"
  using translate_tag_and_net [of rule_tcp_range "PStr ''egress''" "''IPv4''" "PStr ''tcp''"
      "PStr ''sg-1''" PNone "PInt 8000" "PInt 8080"]
    translate_tag_and_net [of rule_any_ipv4 "PStr ''ingress''" "''IPv4''" PNone PNone PNone
      PNone PNone]
    translate_tag_and_net [of rule_group_and_prefix "PStr ''ingress''" "''IPv4''" PNone
      "PStr ''sg-1''" "PStr ''10.0.0.0/8''" PNone PNone]
  by (simp add: rule_tcp_range_def rule_any_ipv4_def rule_group_and_prefix_def tag_field_def
      net_field_def any_address_def)

text \<open>
  C6. For every rule with the seven fields and an ethertype of IPv4 or IPv6 whose
  protocol is not \<^verbatim>\<open>icmp\<close>, whatever its direction: the ports go to \<^verbatim>\<open>dst_ports\<close> and
  never to \<^verbatim>\<open>src_ports\<close>; a lower bound of \<open>-1\<close> gives \<^verbatim>\<open>["1:65535"]\<close>; otherwise equal
  bounds that are not \<^verbatim>\<open>None\<close> give the list of the lower bound; bounds that are both
  \<^verbatim>\<open>None\<close> leave \<^verbatim>\<open>dst_ports\<close> out; and in the remaining case, bounds that differ,
  \<^verbatim>\<open>dst_ports\<close> is the one string \<^verbatim>\<open>"lo:hi"\<close>. The cases are read in the order of the
  claim: the sentinel \<open>-1\<close> is not a bound that is present.
\<close>

theorem translate_ports:
  assumes "rule ''direction'' = Some direction"
    and "rule ''ethertype'' = Some (PStr ethertype)"
    and "ethertype = ''IPv4'' \<or> ethertype = ''IPv6''"
    and "rule ''protocol'' = Some protocol"
    and "rule ''remote_group_id'' = Some remote_group_id"
    and "rule ''remote_ip_prefix'' = Some remote_ip_prefix"
    and "rule ''port_range_min'' = Some lo"
    and "rule ''port_range_max'' = Some hi"
    and "protocol \<noteq> PStr ''icmp''"
  shows "\<exists>e. neutron_rule_to_etcd_rule rule = Inr e \<and> e ''src_ports'' = None \<and>
    (lo = PInt (- 1) \<longrightarrow> e ''dst_ports'' = Some (Lst [PStr ''1:65535''])) \<and>
    (lo \<noteq> PInt (- 1) \<and> lo = hi \<and> lo \<noteq> PNone \<longrightarrow> e ''dst_ports'' = Some (Lst [lo])) \<and>
    (lo = PNone \<and> hi = PNone \<longrightarrow> e ''dst_ports'' = None) \<and>
    (lo \<noteq> PInt (- 1) \<and> lo \<noteq> hi \<longrightarrow>
       e ''dst_ports'' = Some (Lst [PStr (py_str lo @ '':'' @ py_str hi)]))"
proof (rule holdsD)
  show "holds (neutron_rule_to_etcd_rule rule) (\<lambda>e. e ''src_ports'' = None \<and>
    (lo = PInt (- 1) \<longrightarrow> e ''dst_ports'' = Some (Lst [PStr ''1:65535''])) \<and>
    (lo \<noteq> PInt (- 1) \<and> lo = hi \<and> lo \<noteq> PNone \<longrightarrow> e ''dst_ports'' = Some (Lst [lo])) \<and>
    (lo = PNone \<and> hi = PNone \<longrightarrow> e ''dst_ports'' = None) \<and>
    (lo \<noteq> PInt (- 1) \<and> lo \<noteq> hi \<longrightarrow>
       e ''dst_ports'' = Some (Lst [PStr (py_str lo @ '':'' @ py_str hi)])))"
    unfolding neutron_rule_to_etcd_rule_def
    apply (simp add: translate_wp assms split del: if_split cong: if_cong)
    apply auto
    done
qed

theorem translate_ports_witness:
  "rule_tcp_range ''protocol'' = Some (PStr ''tcp'') \<and>
   rule_tcp_range ''direction'' = Some (PStr ''egress'') \<and>
   (\<exists>e. neutron_rule_to_etcd_rule rule_tcp_range = Inr e \<and> e ''src_ports'' = None \<and>
      e ''dst_ports'' = Some (Lst [PStr ''8000:8080''])) \<and>
   (\<exists>e. neutron_rule_to_etcd_rule rule_any_ipv4 = Inr e \<and> e ''src_ports'' = None \<and>
      e ''dst_ports'' = None)"
  using translate_ports [of rule_tcp_range "PStr ''egress''" "''IPv4''" "PStr ''tcp''"
      "PStr ''sg-1''" PNone "PInt 8000" "PInt 8080"]
    translate_ports [of rule_any_ipv4 "PStr ''ingress''" "''IPv4''" PNone PNone PNone
      PNone PNone]
  by (simp add: rule_tcp_range_def rule_any_ipv4_def str_int_def str_nat.simps digit_def)

section \<open>Profile identifiers\<close>

lemma py_split_nonempty: "py_split sep s \<noteq> []"
  by (induction s) (auto split: list.splits)

lemma py_split_no_sep: "sep \<notin> set g \<Longrightarrow> py_split sep g = [g]"
  by (induction g) auto

lemma py_split_append:
  "sep \<notin> set g \<Longrightarrow> py_split sep (g @ sep # rest) = g # py_split sep rest"
  by (induction g) auto

lemma py_split_join:
  assumes "xs \<noteq> []" and "\<forall>g\<in>set xs. sep \<notin> set g"
  shows "py_split sep (py_join [sep] xs) = xs"
  using assms
proof (induction "[sep]" xs rule: py_join.induct)
  case 1
  then show ?case by simp
next
  case (2 x)
  then show ?case by (simp add: py_split_no_sep)
next
  case (3 x y ys)
  then show ?case by (simp add: py_split_append)
qed

lemma py_join_split: "py_join [sep] (py_split sep s) = s"
proof (induction s)
  case Nil
  then show ?case by simp
next
  case (Cons c cs)
  show ?case
  proof (cases "py_split sep cs")
    case Nil
    then show ?thesis using py_split_nonempty by blast
  next
    case (Cons w ws)
    with Cons.IH show ?thesis by (cases ws) auto
  qed
qed

text \<open>
  C5, as the claim states it, fails: for a port with no security group the profile
  identifier is the empty string, and splitting it gives the list of one empty string,
  not the empty list.
\<close>

theorem profile_tags_of_no_groups:
  "profile_tags (port_profile_id port_no_groups) \<noteq> security_groups port_no_groups"
  by (simp add: profile_tags_def port_profile_id_def port_no_groups_def)

text \<open>
  C5, amended. For every port whose list of security group ids is not empty and whose
  ids contain no underscore, \<^verbatim>\<open>profile_tags(port_profile_id(port))\<close> is the port's ordered
  list of ids; and joining the tags of that identifier with underscores gives the
  identifier back.
\<close>

theorem profile_tags_port_profile_id:
  assumes "security_groups port \<noteq> []"
    and "\<forall>g\<in>set (security_groups port). CHR ''_'' \<notin> set g"
  shows "profile_tags (port_profile_id port) = security_groups port \<and>
    py_join ''_'' (profile_tags (port_profile_id port)) = port_profile_id port"
  using assms by (simp add: profile_tags_def port_profile_id_def py_split_join py_join_split)

theorem profile_tags_port_profile_id_witness:
  "security_groups port_two_groups \<noteq> [] \<and>
   port_profile_id port_two_groups = ''a_b'' \<and>
   profile_tags (port_profile_id port_two_groups) = [''a'', ''b'']"
  using profile_tags_port_profile_id [of port_two_groups]
  by (simp add: port_two_groups_def port_profile_id_def)

section \<open>Endpoints and the Felix configuration\<close>

lemma is_text_iff: "is_text s v \<longleftrightarrow> v = Some (Text s)"
  by (auto simp: is_text_def split: option.splits etcd_value.splits)

text \<open>
  C8. \<^verbatim>\<open>endpoint_deleted(port)\<close> returns normally in every state, also when etcd has no
  such key. Its one event is the delete of the endpoint's key \<^verbatim>\<open>port_etcd_key(port)\<close>:
  it writes nothing, and afterwards etcd is as before except at that key, so no document
  of a profile is written or deleted.
\<close>

theorem endpoint_deleted_deletes_endpoint_only:
  "endpoint_deleted dm w port =
     (Inr (), w\<lparr>store := (store w)(port_etcd_key dm port := None),
               trace := trace w @ [Delete (port_etcd_key dm port)]\<rparr>)"
  by (auto simp: endpoint_deleted_def client_delete_def emit_def Let_def fun_upd_idem
      split: option.splits)

theorem endpoint_deleted_deletes_endpoint_only_witness:
  "store (CalicoTransportEtcd etcd_configured []) (port_etcd_key example_datamodel port_no_groups)
     = None \<and>
   fst (endpoint_deleted example_datamodel (CalicoTransportEtcd etcd_configured [])
     port_no_groups) = Inr () \<and>
   trace (snd (endpoint_deleted example_datamodel (CalicoTransportEtcd etcd_configured [])
     port_no_groups)) = [Delete ''/calico/v1/host/host1/workload/openstack/vm1/endpoint/p1'']"
  using endpoint_deleted_deletes_endpoint_only
    [of example_datamodel "CalicoTransportEtcd etcd_configured []" port_no_groups]
  by (simp add: CalicoTransportEtcd_def port_etcd_key_def example_datamodel_def
      port_no_groups_def etcd_configured_def)

text \<open>
  C9. \<^verbatim>\<open>port_etcd_data\<close> is a function of the port alone, and of the five fields it reads:
  two ports that agree on them get the same document. When etcd holds \<^verbatim>\<open>tap\<close> under the
  key of \<^verbatim>\<open>InterfacePrefix\<close> and \<^verbatim>\<open>true\<close> under the readiness key,
  \<^verbatim>\<open>provide_felix_config\<close> reads the two keys and writes nothing: etcd is unchanged and the
  two reads are its only events. That is the case after any run, when the two keys differ:
  a second run writes nothing.
\<close>

theorem port_etcd_data_deterministic_config_idempotent:
  "(admin_state_up p = admin_state_up q \<and> interface_name p = interface_name q \<and>
    mac_address p = mac_address q \<and> security_groups p = security_groups q \<and>
    fixed_ips p = fixed_ips q \<longrightarrow> port_etcd_data p = port_etcd_data q) \<and>
   (store w (key_for_config dm ''InterfacePrefix'') = Some (Text ''tap'') \<and>
    store w (READY_KEY dm) = Some (Text ''true'') \<longrightarrow>
    provide_felix_config dm w =
      (Inr (), w\<lparr>trace := trace w @
         [Read (key_for_config dm ''InterfacePrefix''), Read (READY_KEY dm)]\<rparr>)) \<and>
   (key_for_config dm ''InterfacePrefix'' \<noteq> READY_KEY dm \<longrightarrow>
    provide_felix_config dm (snd (provide_felix_config dm w)) =
      (Inr (), (snd (provide_felix_config dm w))
         \<lparr>trace := trace (snd (provide_felix_config dm w)) @
            [Read (key_for_config dm ''InterfacePrefix''), Read (READY_KEY dm)]\<rparr>))"
proof -
  have same: "provide_felix_config dm w =
      (Inr (), w\<lparr>trace := trace w @
         [Read (key_for_config dm ''InterfacePrefix''), Read (READY_KEY dm)]\<rparr>)"
    if "store w (key_for_config dm ''InterfacePrefix'') = Some (Text ''tap'')"
      and "store w (READY_KEY dm) = Some (Text ''true'')" for w
    using that by (simp add: provide_felix_config_def is_text_iff client_read_def emit_def)
  have after: "store (snd (provide_felix_config dm w)) (key_for_config dm ''InterfacePrefix'')
        = Some (Text ''tap'') \<and>
      store (snd (provide_felix_config dm w)) (READY_KEY dm) = Some (Text ''true'')"
    if "key_for_config dm ''InterfacePrefix'' \<noteq> READY_KEY dm"
    using that
    by (auto simp: provide_felix_config_def is_text_iff client_read_def client_write_def emit_def Let_def
        split: option.splits)
  have ports: "port_etcd_data p = port_etcd_data q"
    if "admin_state_up p = admin_state_up q \<and> interface_name p = interface_name q \<and>
      mac_address p = mac_address q \<and> security_groups p = security_groups q \<and>
      fixed_ips p = fixed_ips q"
    using that by (simp add: port_etcd_data_def port_profile_id_def)
  show ?thesis
    using same [of w] same [of "snd (provide_felix_config dm w)"] after ports by blast
qed

theorem port_etcd_data_deterministic_config_idempotent_witness:
  "port_etcd_data (port_two_groups\<lparr>port_id := ''p3''\<rparr>) = port_etcd_data port_two_groups \<and>
   store (CalicoTransportEtcd etcd_configured []) (READY_KEY example_datamodel)
     = Some (Text ''true'') \<and>
   fst (provide_felix_config example_datamodel (CalicoTransportEtcd etcd_configured []))
     = Inr () \<and>
   trace (snd (provide_felix_config example_datamodel (CalicoTransportEtcd etcd_configured [])))
     = [Read ''/calico/v1/config/InterfacePrefix'', Read ''/calico/v1/Ready'']"
  using port_etcd_data_deterministic_config_idempotent
    [of "port_two_groups\<lparr>port_id := ''p3''\<rparr>" port_two_groups
      "CalicoTransportEtcd etcd_configured []" example_datamodel]
  by (simp add: CalicoTransportEtcd_def example_datamodel_def etcd_configured_def)

section \<open>A freshly constructed object\<close>

text \<open>
  C10. The object that the constructor returns has none of the attributes \<^verbatim>\<open>sgs\<close>,
  \<^verbatim>\<open>_sgs_semaphore\<close>, \<^verbatim>\<open>needed_profiles\<close> and \<^verbatim>\<open>profile_semaphore\<close>. On it
  \<^verbatim>\<open>security_group_updated\<close> fails with \<^verbatim>\<open>AttributeError\<close>, and so does
  \<^verbatim>\<open>profile_rules\<close> for every profile identifier, with nothing else done. No method
  sets the attributes: \<^verbatim>\<open>provide_felix_config\<close> and \<^verbatim>\<open>endpoint_deleted\<close> leave them
  unset, and the other methods fail in the same way in every state that has none of them.
\<close>

theorem fresh_object_attribute_error:
  "unset (CalicoTransportEtcd etcd updates) \<and>
   security_group_updated dm (CalicoTransportEtcd etcd updates) sg =
     (Inl AttributeError, CalicoTransportEtcd etcd updates) \<and>
   profile_rules (CalicoTransportEtcd etcd updates) profile_id =
     (Inl AttributeError, CalicoTransportEtcd etcd updates) \<and>
   (unset w \<longrightarrow>
      unset (snd (provide_felix_config dm w)) \<and> unset (snd (endpoint_deleted dm w port)) \<and>
      security_group_updated dm w sg = (Inl AttributeError, w) \<and>
      profile_rules w profile_id = (Inl AttributeError, w) \<and>
      write_profile_to_etcd dm w profile_id = (Inl AttributeError, w))"
proof -
  obtain t ts where ts: "profile_tags profile_id = t # ts"
    using py_split_nonempty [of "CHR ''_''" profile_id]
    by (cases "profile_tags profile_id") (auto simp: profile_tags_def)
  have a: "\<And>w. sgs_semaphore w = None \<Longrightarrow> profile_rules w profile_id = (Inl AttributeError, w)"
    by (simp add: profile_rules_def ts profile_rules_while.simps)
  have b: "\<And>w. sgs_semaphore w = None \<Longrightarrow>
      security_group_updated dm w sg = (Inl AttributeError, w)"
    by (simp add: security_group_updated_def)
  have c: "\<And>w. unset w \<Longrightarrow> unset (snd (provide_felix_config dm w))"
    by (auto simp: unset_def provide_felix_config_def is_text_iff client_read_def client_write_def
        emit_def Let_def split: option.splits)
  have d: "\<And>w. unset w \<Longrightarrow> unset (snd (endpoint_deleted dm w port))"
    by (auto simp: unset_def endpoint_deleted_def client_delete_def emit_def Let_def
        split: option.splits)
  have e: "unset (CalicoTransportEtcd etcd updates)"
    by (simp add: unset_def CalicoTransportEtcd_def)
  show ?thesis
    using a b c d e by (simp add: unset_def write_profile_to_etcd_def)
qed

theorem fresh_object_attribute_error_witness:
  "unset (CalicoTransportEtcd etcd_configured []) \<and>
   fst (security_group_updated example_datamodel (CalicoTransportEtcd etcd_configured [])
     \<lparr>sg_id = ''a'', security_group_rules = [rule_any_ipv4]\<rparr>) = Inl AttributeError \<and>
   fst (profile_rules (CalicoTransportEtcd etcd_configured []) ''a_b'') = Inl AttributeError \<and>
   fst (profile_rules (snd (provide_felix_config example_datamodel
     (CalicoTransportEtcd etcd_configured []))) ''a_b'') = Inl AttributeError"
  using fresh_object_attribute_error [of etcd_configured "[]" example_datamodel
      "\<lparr>sg_id = ''a'', security_group_rules = [rule_any_ipv4]\<rparr>" "''a_b''"
      "snd (provide_felix_config example_datamodel (CalicoTransportEtcd etcd_configured []))"
      port_no_groups]
    fresh_object_attribute_error [of etcd_configured "[]" example_datamodel
      "\<lparr>sg_id = ''a'', security_group_rules = [rule_any_ipv4]\<rparr>" "''a_b''"
      "CalicoTransportEtcd etcd_configured []" port_no_groups]
  by simp

section \<open>Assembling a profile\<close>

lemma well_formed_total:
  assumes "well_formed rule"
  shows "\<exists>e d. neutron_rule_to_etcd_rule rule = Inr e \<and> rule ''direction'' = Some d"
proof -
  from assms obtain d et p g n lo hi where
    "rule ''direction'' = Some d" "rule ''ethertype'' = Some (PStr et)"
    "et = ''IPv4'' \<or> et = ''IPv6''" "rule ''protocol'' = Some p"
    "rule ''remote_group_id'' = Some g" "rule ''remote_ip_prefix'' = Some n"
    "rule ''port_range_min'' = Some lo" "rule ''port_range_max'' = Some hi"
    by (auto simp: well_formed_def rule_fields_def)
  then show ?thesis using translate_total by blast
qed

lemma well_formed_examples:
  "well_formed rule_any_ipv4" "well_formed rule_tcp_range" "well_formed rule_icmp_ipv6"
  by (simp_all add: well_formed_def rule_fields_def rule_any_ipv4_def rule_tcp_range_def
      rule_icmp_ipv6_def)

text \<open>The loop over the rules of a group does what the specification says of it.\<close>

lemma for_rule_well_formed:
  "\<forall>r\<in>set rules. well_formed r \<Longrightarrow>
   profile_rules_for_rule rules inb outb =
     Inr (inb @ map translated (filter ingress rules),
          outb @ map translated (filter (\<lambda>r. \<not> ingress r) rules))"
proof (induction rules arbitrary: inb outb)
  case Nil
  then show ?case by simp
next
  case (Cons r rules)
  then obtain e d where e: "neutron_rule_to_etcd_rule r = Inr e" "r ''direction'' = Some d"
    using well_formed_total by fastforce
  with Cons show ?case
    by (simp add: and_then_def getitem_def translated_def ingress_def)
qed

text \<open>A group that is in the cache is found at the first attempt.\<close>

lemma while_present:
  assumes "sgs_semaphore w = Some u" and "sgs w = Some cache" and "cache sgid = Some g"
  shows "profile_rules_while w sgid n =
    (Inr (security_group_rules g), w\<lparr>trace := trace w @ attempt\<rparr>)"
  using assms by (simp add: profile_rules_while.simps [of w] emit_def attempt_def)

lemma deliver_Nil: "deliver [] cache = cache"
  and deliver_Cons: "deliver (g # batch) cache = deliver batch (cache(sg_id g \<mapsto> g))"
  by (simp_all add: deliver_def)

lemma deliver_other: "sgid \<notin> sg_id ` set batch \<Longrightarrow> deliver batch cache sgid = cache sgid"
  unfolding deliver_def by (induction batch arbitrary: cache) auto

lemma deliver_dom: "cache t \<noteq> None \<Longrightarrow> deliver batch cache t \<noteq> None"
proof (induction batch arbitrary: cache)
  case Nil
  then show ?case by (simp add: deliver_Nil)
next
  case (Cons g batch)
  from Cons.prems have "(cache(sg_id g \<mapsto> g)) t \<noteq> None" by simp
  then have "deliver batch (cache(sg_id g \<mapsto> g)) t \<noteq> None"
    using Cons.IH [of "cache(sg_id g \<mapsto> g)"] by blast
  then show ?case by (simp add: deliver_Cons)
qed

lemma deliver_arrived: "t \<in> sg_id ` set batch \<Longrightarrow> deliver batch cache t \<noteq> None"
proof (induction batch arbitrary: cache)
  case Nil
  then show ?case by simp
next
  case (Cons g batch)
  show ?case
  proof (cases "t \<in> sg_id ` set batch")
    case True
    then have "deliver batch (cache(sg_id g \<mapsto> g)) t \<noteq> None"
      using Cons.IH [of "cache(sg_id g \<mapsto> g)"] by blast
    then show ?thesis by (simp add: deliver_Cons)
  next
    case False
    with Cons.prems have "t = sg_id g" by auto
    then have "(cache(sg_id g \<mapsto> g)) t \<noteq> None" by simp
    then have "deliver batch (cache(sg_id g \<mapsto> g)) t \<noteq> None"
      using deliver_dom by blast
    then show ?thesis by (simp add: deliver_Cons)
  qed
qed

text \<open>
  A group that is not in the cache and does not arrive during the first \<open>n\<close> sleeps:
  with \<open>n + 1\<close> retries the loop makes \<open>n + 1\<close> attempts, sleeps \<open>n\<close> times and raises.
\<close>

lemma while_absent:
  assumes "sgs_semaphore w = Some u" and "sgs w = Some cache" and "cache sgid = None"
    and "\<forall>b\<in>set (take n (incoming w)). sgid \<notin> sg_id ` set b"
  shows "profile_rules_while w sgid (Suc n) =
    (Inl KeyError,
     w\<lparr>sgs := Some (fold deliver (take n (incoming w)) cache),
       incoming := drop n (incoming w),
       trace := trace w @ concat (replicate n (attempt @ [Log_warning sgid, Sleep 200])) @
         attempt @ [Log_warning sgid, Log_error sgid]\<rparr>)"
  using assms
proof (induction n arbitrary: w cache)
  case 0
  then show ?case
    by (simp add: profile_rules_while.simps [of w] emit_def attempt_def)
next
  case (Suc n)
  let ?w1 = "w\<lparr>trace := trace w @ attempt @ [Log_warning sgid]\<rparr>"
  have step: "profile_rules_while w sgid (Suc (Suc n)) =
      profile_rules_while (eventlet_sleep 200 ?w1) sgid (Suc n)"
    using Suc.prems(1-3) by (simp add: profile_rules_while.simps [of w] emit_def attempt_def)
  show ?case
  proof (cases "incoming w")
    case Nil
    let ?w2 = "w\<lparr>trace := trace w @ attempt @ [Log_warning sgid, Sleep 200]\<rparr>"
    have w2: "eventlet_sleep 200 ?w1 = ?w2"
      using Nil by (simp add: eventlet_sleep_def emit_def)
    have "profile_rules_while ?w2 sgid (Suc n) = (Inl KeyError,
     ?w2\<lparr>sgs := Some (fold deliver (take n (incoming ?w2)) cache),
       incoming := drop n (incoming ?w2),
       trace := trace ?w2 @ concat (replicate n (attempt @ [Log_warning sgid, Sleep 200])) @
         attempt @ [Log_warning sgid, Log_error sgid]\<rparr>)"
      using Suc.prems Nil by (intro Suc.IH) simp_all
    then show ?thesis unfolding step w2 using Nil by simp
  next
    case (Cons b bs)
    let ?w2 = "w\<lparr>sgs := Some (deliver b cache), incoming := bs,
      trace := trace w @ attempt @ [Log_warning sgid, Sleep 200]\<rparr>"
    have w2: "eventlet_sleep 200 ?w1 = ?w2"
      using Cons Suc.prems(2) by (simp add: eventlet_sleep_def emit_def)
    have "deliver b cache sgid = None"
      using Suc.prems(3,4) Cons by (simp add: deliver_other)
    then have "profile_rules_while ?w2 sgid (Suc n) = (Inl KeyError,
     ?w2\<lparr>sgs := Some (fold deliver (take n (incoming ?w2)) (deliver b cache)),
       incoming := drop n (incoming ?w2),
       trace := trace ?w2 @ concat (replicate n (attempt @ [Log_warning sgid, Sleep 200])) @
         attempt @ [Log_warning sgid, Log_error sgid]\<rparr>)"
      using Suc.prems Cons by (intro Suc.IH) simp_all
    then show ?thesis unfolding step w2 using Cons by simp
  qed
qed

text \<open>
  A group that is not in the cache and arrives during the first \<open>n\<close> sleeps is found
  with \<open>n + 1\<close> retries, at the attempt after the sleep that brings it.
\<close>

lemma sleeps_until_Cons:
  "sleeps_until sgid (b # bs) = (if sgid \<in> sg_id ` set b then 1 else Suc (sleeps_until sgid bs))"
  by (simp add: sleeps_until_def)

lemma arrived_cache_Cons:
  "arrived_cache sgid (b # bs) cache =
     (if sgid \<in> sg_id ` set b then deliver b cache else arrived_cache sgid bs (deliver b cache))"
  by (simp add: arrived_cache_def sleeps_until_def)

lemma while_found:
  assumes "sgs_semaphore w = Some u" and "sgs w = Some cache" and "cache sgid = None"
    and "\<exists>b\<in>set (take n (incoming w)). sgid \<in> sg_id ` set b"
  shows "\<exists>g. arrived_cache sgid (incoming w) cache sgid = Some g \<and>
    profile_rules_while w sgid (Suc n) =
      (Inr (security_group_rules g),
       w\<lparr>sgs := Some (arrived_cache sgid (incoming w) cache),
         incoming := drop (sleeps_until sgid (incoming w)) (incoming w),
         trace := trace w @
           concat (replicate (sleeps_until sgid (incoming w))
             (attempt @ [Log_warning sgid, Sleep 200])) @ attempt\<rparr>)"
  using assms
proof (induction n arbitrary: w cache)
  case 0
  then show ?case by simp
next
  case (Suc n)
  from Suc.prems(4) obtain b bs where inc: "incoming w = b # bs"
    and arr: "sgid \<in> sg_id ` set b \<or> (\<exists>b'\<in>set (take n bs). sgid \<in> sg_id ` set b')"
    by (cases "incoming w") auto
  let ?w1 = "w\<lparr>trace := trace w @ attempt @ [Log_warning sgid]\<rparr>"
  let ?w2 = "w\<lparr>sgs := Some (deliver b cache), incoming := bs,
    trace := trace w @ attempt @ [Log_warning sgid, Sleep 200]\<rparr>"
  have step: "profile_rules_while w sgid (Suc (Suc n)) =
      profile_rules_while (eventlet_sleep 200 ?w1) sgid (Suc n)"
    using Suc.prems(1-3) by (simp add: profile_rules_while.simps [of w] emit_def attempt_def)
  have w2: "eventlet_sleep 200 ?w1 = ?w2"
    using inc Suc.prems(2) by (simp add: eventlet_sleep_def emit_def)
  show ?case
  proof (cases "sgid \<in> sg_id ` set b")
    case True
    then obtain g where g: "deliver b cache sgid = Some g"
      using deliver_arrived [of sgid b cache] by auto
    have "profile_rules_while ?w2 sgid (Suc n) =
        (Inr (security_group_rules g), ?w2\<lparr>trace := trace ?w2 @ attempt\<rparr>)"
      using Suc.prems(1) g by (intro while_present [where u = u and cache = "deliver b cache"]) simp_all
    then show ?thesis
      unfolding step w2 using True g inc
      by (simp add: sleeps_until_Cons arrived_cache_Cons)
  next
    case False
    then have none: "deliver b cache sgid = None"
      using Suc.prems(3) by (simp add: deliver_other)
    have "\<exists>g. arrived_cache sgid (incoming ?w2) (deliver b cache) sgid = Some g \<and>
      profile_rules_while ?w2 sgid (Suc n) =
      (Inr (security_group_rules g),
       ?w2\<lparr>sgs := Some (arrived_cache sgid (incoming ?w2) (deliver b cache)),
         incoming := drop (sleeps_until sgid (incoming ?w2)) (incoming ?w2),
         trace := trace ?w2 @
           concat (replicate (sleeps_until sgid (incoming ?w2))
             (attempt @ [Log_warning sgid, Sleep 200])) @ attempt\<rparr>)"
      using Suc.prems(1) none arr False by (intro Suc.IH) simp_all
    then show ?thesis
      unfolding step w2 using False inc
      by (simp add: sleeps_until_Cons arrived_cache_Cons)
  qed
qed

lemma sleeps_until_le:
  "\<exists>b\<in>set (take n batches). sgid \<in> sg_id ` set b \<Longrightarrow> sleeps_until sgid batches \<le> n"
proof (induction batches arbitrary: n)
  case Nil
  then show ?case by simp
next
  case (Cons b bs)
  then show ?case
    by (cases n) (auto simp: sleeps_until_Cons)
qed

text \<open>
  The loop over the groups of a profile: when all of them are in the cache it returns the
  document of the specification after one attempt for each.
\<close>

lemma groups_present:
  assumes "sgs_semaphore w = Some u" and "sgs w = Some cache"
    and "\<forall>t\<in>set tags. \<exists>g. cache t = Some g \<and> well_formed_sg g"
  shows "profile_rules_for_sgid w tags inb outb =
    (Inr \<lparr>inbound_rules = inb @ map translated (filter ingress (group_rules cache tags)),
          outbound_rules =
            outb @ map translated (filter (\<lambda>r. \<not> ingress r) (group_rules cache tags))\<rparr>,
     w\<lparr>trace := trace w @ concat (map (\<lambda>t. attempt) tags)\<rparr>)"
  using assms
proof (induction tags arbitrary: w inb outb)
  case Nil
  then show ?case by (simp add: group_rules_def)
next
  case (Cons t tags)
  then obtain g where g: "cache t = Some g" "well_formed_sg g" by auto
  let ?w1 = "w\<lparr>trace := trace w @ attempt\<rparr>"
  let ?inb = "inb @ map translated (filter ingress (security_group_rules g))"
  let ?outb = "outb @ map translated (filter (\<lambda>r. \<not> ingress r) (security_group_rules g))"
  have 1: "profile_rules_while w t 20 = (Inr (security_group_rules g), ?w1)"
    using Cons.prems(1,2) g(1) by (rule while_present)
  have 2: "profile_rules_for_rule (security_group_rules g) inb outb = Inr (?inb, ?outb)"
    using g(2) by (intro for_rule_well_formed) (simp add: well_formed_sg_def)
  have 3: "profile_rules_for_sgid ?w1 tags ?inb ?outb =
    (Inr \<lparr>inbound_rules = ?inb @ map translated (filter ingress (group_rules cache tags)),
          outbound_rules =
            ?outb @ map translated (filter (\<lambda>r. \<not> ingress r) (group_rules cache tags))\<rparr>,
     ?w1\<lparr>trace := trace ?w1 @ concat (map (\<lambda>t. attempt) tags)\<rparr>)"
    using Cons.prems by (intro Cons.IH) simp_all
  show ?case
    by (simp add: 1 2 3 group_rules_def g(1))
qed

lemma groups_missing:
  assumes "sgs_semaphore w = Some u" and "sgs w = Some cache"
    and "\<forall>t\<in>set pre. \<exists>g. cache t = Some g \<and> well_formed_sg g"
    and "cache sgid = None"
    and "\<forall>b\<in>set (take 19 (incoming w)). sgid \<notin> sg_id ` set b"
  shows "profile_rules_for_sgid w (pre @ sgid # post) inb outb =
    (Inl KeyError,
     w\<lparr>sgs := Some (fold deliver (take 19 (incoming w)) cache),
       incoming := drop 19 (incoming w),
       trace := trace w @ concat (map (\<lambda>t. attempt) pre) @
         concat (replicate 19 (attempt @ [Log_warning sgid, Sleep 200])) @
         attempt @ [Log_warning sgid, Log_error sgid]\<rparr>)"
  using assms
proof (induction pre arbitrary: w inb outb)
  case Nil
  have "profile_rules_while w sgid 20 =
    (Inl KeyError,
     w\<lparr>sgs := Some (fold deliver (take 19 (incoming w)) cache),
       incoming := drop 19 (incoming w),
       trace := trace w @ concat (replicate 19 (attempt @ [Log_warning sgid, Sleep 200])) @
         attempt @ [Log_warning sgid, Log_error sgid]\<rparr>)"
    using Nil.prems(1,2,4,5) while_absent [of w u cache sgid 19] by simp
  then show ?case by simp
next
  case (Cons t pre)
  then obtain g where g: "cache t = Some g" "well_formed_sg g" by auto
  let ?w1 = "w\<lparr>trace := trace w @ attempt\<rparr>"
  let ?inb = "inb @ map translated (filter ingress (security_group_rules g))"
  let ?outb = "outb @ map translated (filter (\<lambda>r. \<not> ingress r) (security_group_rules g))"
  have 1: "profile_rules_while w t 20 = (Inr (security_group_rules g), ?w1)"
    using Cons.prems(1,2) g(1) by (rule while_present)
  have 2: "profile_rules_for_rule (security_group_rules g) inb outb = Inr (?inb, ?outb)"
    using g(2) by (intro for_rule_well_formed) (simp add: well_formed_sg_def)
  have 3: "profile_rules_for_sgid ?w1 (pre @ sgid # post) ?inb ?outb =
    (Inl KeyError,
     ?w1\<lparr>sgs := Some (fold deliver (take 19 (incoming ?w1)) cache),
       incoming := drop 19 (incoming ?w1),
       trace := trace ?w1 @ concat (map (\<lambda>t. attempt) pre) @
         concat (replicate 19 (attempt @ [Log_warning sgid, Sleep 200])) @
         attempt @ [Log_warning sgid, Log_error sgid]\<rparr>)"
    using Cons.prems by (intro Cons.IH) simp_all
  show ?case
    by (simp add: 1 2 3)
qed

lemma groups_prefix:
  assumes "sgs_semaphore w = Some u" and "sgs w = Some cache"
    and "\<forall>t\<in>set pre. \<exists>g. cache t = Some g \<and> well_formed_sg g"
  shows "profile_rules_for_sgid w (pre @ rest) inb outb =
    profile_rules_for_sgid (w\<lparr>trace := trace w @ concat (map (\<lambda>t. attempt) pre)\<rparr>) rest
      (inb @ map translated (filter ingress (group_rules cache pre)))
      (outb @ map translated (filter (\<lambda>r. \<not> ingress r) (group_rules cache pre)))"
  using assms
proof (induction pre arbitrary: w inb outb)
  case Nil
  then show ?case by (simp add: group_rules_def)
next
  case (Cons t pre)
  then obtain g where g: "cache t = Some g" "well_formed_sg g" by auto
  let ?w1 = "w\<lparr>trace := trace w @ attempt\<rparr>"
  let ?inb = "inb @ map translated (filter ingress (security_group_rules g))"
  let ?outb = "outb @ map translated (filter (\<lambda>r. \<not> ingress r) (security_group_rules g))"
  have 1: "profile_rules_while w t 20 = (Inr (security_group_rules g), ?w1)"
    using Cons.prems(1,2) g(1) by (rule while_present)
  have 2: "profile_rules_for_rule (security_group_rules g) inb outb = Inr (?inb, ?outb)"
    using g(2) by (intro for_rule_well_formed) (simp add: well_formed_sg_def)
  have 3: "profile_rules_for_sgid ?w1 (pre @ rest) ?inb ?outb =
    profile_rules_for_sgid (?w1\<lparr>trace := trace ?w1 @ concat (map (\<lambda>t. attempt) pre)\<rparr>) rest
      (?inb @ map translated (filter ingress (group_rules cache pre)))
      (?outb @ map translated (filter (\<lambda>r. \<not> ingress r) (group_rules cache pre)))"
    using Cons.prems by (intro Cons.IH) simp_all
  show ?case
    by (simp add: 1 2 3 group_rules_def g(1))
qed

lemma groups_found:
  assumes "sgs_semaphore w = Some u" and "sgs w = Some cache"
    and "\<forall>t\<in>set pre. \<exists>g. cache t = Some g \<and> well_formed_sg g"
    and "cache sgid = None"
    and "\<exists>b\<in>set (take 19 (incoming w)). sgid \<in> sg_id ` set b"
    and "\<forall>t\<in>set (sgid # post).
           \<exists>g. arrived_cache sgid (incoming w) cache t = Some g \<and> well_formed_sg g"
  shows "profile_rules_for_sgid w (pre @ sgid # post) [] [] =
    (Inr \<lparr>inbound_rules = map translated (filter ingress
             (group_rules cache pre @
              group_rules (arrived_cache sgid (incoming w) cache) (sgid # post))),
          outbound_rules = map translated (filter (\<lambda>r. \<not> ingress r)
             (group_rules cache pre @
              group_rules (arrived_cache sgid (incoming w) cache) (sgid # post)))\<rparr>,
     w\<lparr>sgs := Some (arrived_cache sgid (incoming w) cache),
       incoming := drop (sleeps_until sgid (incoming w)) (incoming w),
       trace := trace w @ concat (map (\<lambda>t. attempt) pre) @
         concat (replicate (sleeps_until sgid (incoming w))
           (attempt @ [Log_warning sgid, Sleep 200])) @
         attempt @ concat (map (\<lambda>t. attempt) post)\<rparr>)"
proof -
  let ?cache' = "arrived_cache sgid (incoming w) cache"
  let ?k = "sleeps_until sgid (incoming w)"
  let ?w1 = "w\<lparr>trace := trace w @ concat (map (\<lambda>t. attempt) pre)\<rparr>"
  let ?inb1 = "map translated (filter ingress (group_rules cache pre))"
  let ?outb1 = "map translated (filter (\<lambda>r. \<not> ingress r) (group_rules cache pre))"
  have 1: "profile_rules_for_sgid w (pre @ sgid # post) [] [] =
      profile_rules_for_sgid ?w1 (sgid # post) ?inb1 ?outb1"
    using groups_prefix [OF assms(1-3), of "sgid # post" "[]" "[]"] by simp
  have "\<exists>g. arrived_cache sgid (incoming ?w1) cache sgid = Some g \<and>
    profile_rules_while ?w1 sgid (Suc 19) =
      (Inr (security_group_rules g),
       ?w1\<lparr>sgs := Some (arrived_cache sgid (incoming ?w1) cache),
         incoming := drop (sleeps_until sgid (incoming ?w1)) (incoming ?w1),
         trace := trace ?w1 @
           concat (replicate (sleeps_until sgid (incoming ?w1))
             (attempt @ [Log_warning sgid, Sleep 200])) @ attempt\<rparr>)"
    using assms(1,2,4,5) by (intro while_found [where u = u]) simp_all
  then obtain g where g: "?cache' sgid = Some g"
    and 2: "profile_rules_while ?w1 sgid 20 =
      (Inr (security_group_rules g),
       w\<lparr>sgs := Some ?cache', incoming := drop ?k (incoming w),
         trace := trace w @ concat (map (\<lambda>t. attempt) pre) @
           concat (replicate ?k (attempt @ [Log_warning sgid, Sleep 200])) @ attempt\<rparr>)"
    by auto
  let ?w2 = "w\<lparr>sgs := Some ?cache', incoming := drop ?k (incoming w),
         trace := trace w @ concat (map (\<lambda>t. attempt) pre) @
           concat (replicate ?k (attempt @ [Log_warning sgid, Sleep 200])) @ attempt\<rparr>"
  have wf: "well_formed_sg g" using assms(6) g by auto
  let ?inb2 = "?inb1 @ map translated (filter ingress (security_group_rules g))"
  let ?outb2 = "?outb1 @ map translated (filter (\<lambda>r. \<not> ingress r) (security_group_rules g))"
  have 3: "profile_rules_for_rule (security_group_rules g) ?inb1 ?outb1 = Inr (?inb2, ?outb2)"
    using wf by (intro for_rule_well_formed) (simp add: well_formed_sg_def)
  have 4: "profile_rules_for_sgid ?w2 post ?inb2 ?outb2 =
    (Inr \<lparr>inbound_rules = ?inb2 @ map translated (filter ingress (group_rules ?cache' post)),
          outbound_rules =
            ?outb2 @ map translated (filter (\<lambda>r. \<not> ingress r) (group_rules ?cache' post))\<rparr>,
     ?w2\<lparr>trace := trace ?w2 @ concat (map (\<lambda>t. attempt) post)\<rparr>)"
    using assms(1,6) by (intro groups_present [where u = u]) simp_all
  have 5: "profile_rules_for_sgid ?w1 (sgid # post) ?inb1 ?outb1 =
    (Inr \<lparr>inbound_rules = ?inb2 @ map translated (filter ingress (group_rules ?cache' post)),
          outbound_rules =
            ?outb2 @ map translated (filter (\<lambda>r. \<not> ingress r) (group_rules ?cache' post))\<rparr>,
     ?w2\<lparr>trace := trace ?w2 @ concat (map (\<lambda>t. attempt) post)\<rparr>)"
    by (simp add: 2 3 4)
  show ?thesis
    unfolding 1 5 by (simp add: group_rules_def g)
qed

lemma translated_examples:
  "translated rule_any_ipv4 =
     [''ip_version'' \<mapsto> Val (PInt 4), ''src_net'' \<mapsto> Val (PStr ''0.0.0.0/0'')]"
  "translated rule_icmp_ipv6 =
     [''ip_version'' \<mapsto> Val (PInt 6), ''protocol'' \<mapsto> Val (PStr ''icmpv6''),
      ''icmp_type'' \<mapsto> Val (PInt 3), ''icmp_code'' \<mapsto> Val (PInt 4),
      ''src_net'' \<mapsto> Val (PStr ''::/0'')]"
  "translated rule_tcp_range =
     [''ip_version'' \<mapsto> Val (PInt 4), ''protocol'' \<mapsto> Val (PStr ''tcp''),
      ''dst_tag'' \<mapsto> Val (PStr ''sg-1''), ''dst_ports'' \<mapsto> Lst [PStr ''8000:8080'']]"
  by (simp_all add: translated_def translate_defs rule_any_ipv4_def rule_icmp_ipv6_def
      rule_tcp_range_def str_int_def str_nat.simps digit_def)

text \<open>
  C4. Let the cache and its semaphore exist, and let \<open>sgid\<close> be the first group of the
  profile that is not in the cache, the groups before it being there and well formed.
  If \<open>sgid\<close> does not arrive during the first 19 sleeps, \<^verbatim>\<open>profile_rules\<close> raises
  \<^verbatim>\<open>KeyError\<close> and returns no document; it has then made one attempt for each group before
  \<open>sgid\<close>, and for \<open>sgid\<close> 20 attempts, each followed by a warning, with a sleep of 200 ms
  between two consecutive attempts (19 sleeps), and the error record at the end. If
  \<open>sgid\<close> arrives during the first 19 sleeps, and \<open>sgid\<close> and the groups after it are
  well formed in the cache as it is then, \<^verbatim>\<open>profile_rules\<close> waits for at most 19 sleeps,
  one for each batch up to the one that brings \<open>sgid\<close>, finds \<open>sgid\<close> at the next
  attempt, makes one attempt for each group after it, and returns the document of the
  build: the translated rules of the groups before \<open>sgid\<close> as the cache had them at the
  start, then those of \<open>sgid\<close> and of the groups after it as the cache has them then, in
  the order of the tags, the inbound and the outbound ones apart.
\<close>

theorem profile_rules_missing_group:
  assumes "sgs_semaphore w = Some u" and "sgs w = Some cache"
    and "profile_tags profile_id = pre @ sgid # post"
    and "\<forall>t\<in>set pre. \<exists>g. cache t = Some g \<and> well_formed_sg g"
    and "cache sgid = None"
  shows "((\<forall>b\<in>set (take 19 (incoming w)). sgid \<notin> sg_id ` set b) \<longrightarrow>
      profile_rules w profile_id =
        (Inl KeyError,
         w\<lparr>sgs := Some (fold deliver (take 19 (incoming w)) cache),
           incoming := drop 19 (incoming w),
           trace := trace w @ concat (map (\<lambda>t. attempt) pre) @
             concat (replicate 19 (attempt @ [Log_warning sgid, Sleep 200])) @
             attempt @ [Log_warning sgid, Log_error sgid]\<rparr>)) \<and>
    ((\<exists>b\<in>set (take 19 (incoming w)). sgid \<in> sg_id ` set b) \<and>
     (\<forall>t\<in>set (sgid # post).
        \<exists>g. arrived_cache sgid (incoming w) cache t = Some g \<and> well_formed_sg g) \<longrightarrow>
      sleeps_until sgid (incoming w) \<le> 19 \<and>
      profile_rules w profile_id =
        (Inr \<lparr>inbound_rules = map translated (filter ingress
                 (group_rules cache pre @
                  group_rules (arrived_cache sgid (incoming w) cache) (sgid # post))),
              outbound_rules = map translated (filter (\<lambda>rule. \<not> ingress rule)
                 (group_rules cache pre @
                  group_rules (arrived_cache sgid (incoming w) cache) (sgid # post)))\<rparr>,
         w\<lparr>sgs := Some (arrived_cache sgid (incoming w) cache),
           incoming := drop (sleeps_until sgid (incoming w)) (incoming w),
           trace := trace w @ concat (map (\<lambda>t. attempt) pre) @
             concat (replicate (sleeps_until sgid (incoming w))
               (attempt @ [Log_warning sgid, Sleep 200])) @
             attempt @ concat (map (\<lambda>t. attempt) post)\<rparr>))"
proof (intro conjI impI)
  assume "\<forall>b\<in>set (take 19 (incoming w)). sgid \<notin> sg_id ` set b"
  with assms show "profile_rules w profile_id =
        (Inl KeyError,
         w\<lparr>sgs := Some (fold deliver (take 19 (incoming w)) cache),
           incoming := drop 19 (incoming w),
           trace := trace w @ concat (map (\<lambda>t. attempt) pre) @
             concat (replicate 19 (attempt @ [Log_warning sgid, Sleep 200])) @
             attempt @ [Log_warning sgid, Log_error sgid]\<rparr>)"
    unfolding profile_rules_def by (simp only: groups_missing)
next
  assume "(\<exists>b\<in>set (take 19 (incoming w)). sgid \<in> sg_id ` set b) \<and>
     (\<forall>t\<in>set (sgid # post).
        \<exists>g. arrived_cache sgid (incoming w) cache t = Some g \<and> well_formed_sg g)"
  then show "sleeps_until sgid (incoming w) \<le> 19"
    by (intro sleeps_until_le) simp
next
  assume b: "(\<exists>b\<in>set (take 19 (incoming w)). sgid \<in> sg_id ` set b) \<and>
     (\<forall>t\<in>set (sgid # post).
        \<exists>g. arrived_cache sgid (incoming w) cache t = Some g \<and> well_formed_sg g)"
  from b have arrives: "\<exists>b\<in>set (take 19 (incoming w)). sgid \<in> sg_id ` set b"
    and rest: "\<forall>t\<in>set (sgid # post).
        \<exists>g. arrived_cache sgid (incoming w) cache t = Some g \<and> well_formed_sg g"
    by simp_all
  show "profile_rules w profile_id =
        (Inr \<lparr>inbound_rules = map translated (filter ingress
                 (group_rules cache pre @
                  group_rules (arrived_cache sgid (incoming w) cache) (sgid # post))),
              outbound_rules = map translated (filter (\<lambda>rule. \<not> ingress rule)
                 (group_rules cache pre @
                  group_rules (arrived_cache sgid (incoming w) cache) (sgid # post)))\<rparr>,
         w\<lparr>sgs := Some (arrived_cache sgid (incoming w) cache),
           incoming := drop (sleeps_until sgid (incoming w)) (incoming w),
           trace := trace w @ concat (map (\<lambda>t. attempt) pre) @
             concat (replicate (sleeps_until sgid (incoming w))
               (attempt @ [Log_warning sgid, Sleep 200])) @
             attempt @ concat (map (\<lambda>t. attempt) post)\<rparr>)"
    unfolding profile_rules_def assms(3)
    using assms(1,2,4,5) arrives rest by (rule groups_found)
qed

theorem profile_rules_missing_group_witness:
  "profile_tags ''a_b'' = [''a''] @ ''b'' # [] \<and>
   fst (profile_rules (world_a []) ''a_b'') = Inl KeyError \<and>
   trace (snd (profile_rules (world_a []) ''a_b'')) =
     attempt @ concat (replicate 19 (attempt @ [Log_warning ''b'', Sleep 200])) @
     attempt @ [Log_warning ''b'', Log_error ''b''] \<and>
   sleeps_until ''b'' [[], [sg_b]] = 2 \<and>
   fst (profile_rules (world_a [[], [sg_b]]) ''a_b'') =
     Inr \<lparr>inbound_rules =
            [[''ip_version'' \<mapsto> Val (PInt 4), ''src_net'' \<mapsto> Val (PStr ''0.0.0.0/0'')],
             [''ip_version'' \<mapsto> Val (PInt 6), ''protocol'' \<mapsto> Val (PStr ''icmpv6''),
              ''icmp_type'' \<mapsto> Val (PInt 3), ''icmp_code'' \<mapsto> Val (PInt 4),
              ''src_net'' \<mapsto> Val (PStr ''::/0'')]],
          outbound_rules =
            [[''ip_version'' \<mapsto> Val (PInt 4), ''protocol'' \<mapsto> Val (PStr ''tcp''),
              ''dst_tag'' \<mapsto> Val (PStr ''sg-1''),
              ''dst_ports'' \<mapsto> Lst [PStr ''8000:8080'']]]\<rparr> \<and>
   sgs (snd (profile_rules (world_a [[], [sg_b]]) ''a_b'')) =
     Some [''a'' \<mapsto> sg_a, ''b'' \<mapsto> sg_b] \<and>
   trace (snd (profile_rules (world_a [[], [sg_b]]) ''a_b'')) =
     attempt @ attempt @ [Log_warning ''b'', Sleep 200] @
     attempt @ [Log_warning ''b'', Sleep 200] @ attempt"
proof -
  have tags: "profile_tags ''a_b'' = [''a''] @ ''b'' # []"
    by (simp add: profile_tags_def)
  have sid: "sg_id sg_b = ''b''"
    by (simp add: sg_b_def)
  have k: "sleeps_until ''b'' [[], [sg_b]] = 2"
    by (simp add: sleeps_until_def sid)
  have c: "arrived_cache ''b'' [[], [sg_b]] [''a'' \<mapsto> sg_a] = [''a'' \<mapsto> sg_a, ''b'' \<mapsto> sg_b]"
    by (simp add: arrived_cache_Cons deliver_def sid)
  have wf: "well_formed_sg sg_a" "well_formed_sg sg_b"
    by (simp_all add: well_formed_sg_def sg_a_def sg_b_def well_formed_examples)
  have rules: "group_rules [''a'' \<mapsto> sg_a] [''a''] = [rule_any_ipv4]"
    "group_rules [''a'' \<mapsto> sg_a, ''b'' \<mapsto> sg_b] [''b''] = [rule_tcp_range, rule_icmp_ipv6]"
    by (simp_all add: group_rules_def sg_a_def sg_b_def)
  have dirs: "ingress rule_any_ipv4" "ingress rule_icmp_ipv6" "\<not> ingress rule_tcp_range"
    by (simp_all add: ingress_def rule_any_ipv4_def rule_icmp_ipv6_def rule_tcp_range_def)
  have sem: "sgs_semaphore (world_a updates) = Some ()"
    and cache: "sgs (world_a updates) = Some [''a'' \<mapsto> sg_a]"
    and inc: "incoming (world_a updates) = updates"
    and tr: "trace (world_a updates) = []" for updates
    by (simp_all add: world_a_def)
  have before: "\<forall>t\<in>set [''a'']. \<exists>g. [''a'' \<mapsto> sg_a] t = Some g \<and> well_formed_sg g"
    by (simp add: wf)
  have absent: "[''a'' \<mapsto> sg_a] ''b'' = None"
    by simp
  have never: "\<forall>b\<in>set (take 19 (incoming (world_a []))). ''b'' \<notin> sg_id ` set b"
    by (simp add: inc)
  have arrives: "\<exists>b\<in>set (take 19 (incoming (world_a [[], [sg_b]]))). ''b'' \<in> sg_id ` set b"
    by (simp add: inc sid)
  have rest: "\<forall>t\<in>set (''b'' # []).
      \<exists>g. arrived_cache ''b'' (incoming (world_a [[], [sg_b]])) [''a'' \<mapsto> sg_a] t = Some g \<and>
        well_formed_sg g"
    by (simp add: inc c wf)
  note failure = profile_rules_missing_group
    [of "world_a []" "()" "[''a'' \<mapsto> sg_a]" "''a_b''" "[''a'']" "''b''" "[]",
      OF sem cache tags before absent, THEN conjunct1, THEN mp, OF never]
  note success = profile_rules_missing_group
    [of "world_a [[], [sg_b]]" "()" "[''a'' \<mapsto> sg_a]" "''a_b''" "[''a'']" "''b''" "[]",
      OF sem cache tags before absent, THEN conjunct2, THEN mp, OF conjI [OF arrives rest]]
  have 1: "fst (profile_rules (world_a []) ''a_b'') = Inl KeyError"
    and 2: "trace (snd (profile_rules (world_a []) ''a_b'')) =
     attempt @ concat (replicate 19 (attempt @ [Log_warning ''b'', Sleep 200])) @
     attempt @ [Log_warning ''b'', Log_error ''b'']"
    by (simp_all add: failure tr)
  have 3: "fst (profile_rules (world_a [[], [sg_b]]) ''a_b'') =
     Inr \<lparr>inbound_rules =
            [[''ip_version'' \<mapsto> Val (PInt 4), ''src_net'' \<mapsto> Val (PStr ''0.0.0.0/0'')],
             [''ip_version'' \<mapsto> Val (PInt 6), ''protocol'' \<mapsto> Val (PStr ''icmpv6''),
              ''icmp_type'' \<mapsto> Val (PInt 3), ''icmp_code'' \<mapsto> Val (PInt 4),
              ''src_net'' \<mapsto> Val (PStr ''::/0'')]],
          outbound_rules =
            [[''ip_version'' \<mapsto> Val (PInt 4), ''protocol'' \<mapsto> Val (PStr ''tcp''),
              ''dst_tag'' \<mapsto> Val (PStr ''sg-1''),
              ''dst_ports'' \<mapsto> Lst [PStr ''8000:8080'']]]\<rparr>"
    using success [THEN conjunct2]
    by (simp add: inc c rules dirs translated_examples)
  have 4: "sgs (snd (profile_rules (world_a [[], [sg_b]]) ''a_b'')) =
     Some [''a'' \<mapsto> sg_a, ''b'' \<mapsto> sg_b]"
    and 5: "trace (snd (profile_rules (world_a [[], [sg_b]]) ''a_b'')) =
     attempt @ attempt @ [Log_warning ''b'', Sleep 200] @
     attempt @ [Log_warning ''b'', Sleep 200] @ attempt"
    using success [THEN conjunct2]
    by (simp_all add: inc tr c k numeral_2_eq_2)
  show ?thesis
    using tags k 1 2 3 4 5 by simp
qed

section \<open>A change of a security group\<close>

lemma writes_append: "writes (xs @ ys) = writes xs @ writes ys"
  by (induction xs rule: writes.induct) simp_all

lemma writes_attempts: "writes (concat (map (\<lambda>t. attempt) tags)) = []"
  by (induction tags) (simp_all add: attempt_def)

lemma writes_retries:
  "writes (concat (replicate n
     [Acquire Sgs_semaphore, Release Sgs_semaphore, Log_warning sgid, Sleep ms])) = []"
  by (induction n) simp_all

lemma writes_rewrite_events: "writes (rewrite_events dm cache p) = profile_documents dm cache p"
  by (simp add: rewrite_events_def writes_append writes_attempts profile_documents_def)

lemma writes_rewrites:
  "writes (concat (map (rewrite_events dm cache) ps)) = concat (map (profile_documents dm cache) ps)"
  by (induction ps) (simp_all add: writes_append writes_rewrite_events)

lemma write_profile_present:
  assumes "sgs_semaphore w = Some u" and "sgs w = Some cache"
    and "\<forall>t\<in>set (profile_tags p). \<exists>g. cache t = Some g \<and> well_formed_sg g"
  shows "write_profile_to_etcd dm w p =
    (Inr (),
     w\<lparr>store := (store w)
          (key_for_profile_rules dm p \<mapsto> Dumps_rules (expected_profile_doc cache p),
           key_for_profile_tags dm p \<mapsto> Dumps_tags (profile_tags p)),
       trace := trace w @ rewrite_events dm cache p\<rparr>)"
  using groups_present [OF assms, of "[]" "[]"]
  by (simp add: write_profile_to_etcd_def profile_rules_def client_write_def emit_def
      rewrite_events_def profile_documents_def expected_profile_doc_def)

lemma rewrite_profiles_present:
  assumes "sgs_semaphore w = Some u" and "sgs w = Some cache"
    and "\<forall>p\<in>set ps. \<forall>t\<in>set (profile_tags p). \<exists>g. cache t = Some g \<and> well_formed_sg g"
  shows "\<exists>w'. rewrite_profiles dm w ps = (Inr (), w') \<and> sgs w' = Some cache \<and>
    trace w' = trace w @ concat (map (rewrite_events dm cache) ps)"
  using assms
proof (induction ps arbitrary: w)
  case Nil
  then show ?case by simp
next
  case (Cons p ps)
  let ?w1 = "w\<lparr>store := (store w)
          (key_for_profile_rules dm p \<mapsto> Dumps_rules (expected_profile_doc cache p),
           key_for_profile_tags dm p \<mapsto> Dumps_tags (profile_tags p)),
       trace := trace w @ rewrite_events dm cache p\<rparr>"
  have 1: "write_profile_to_etcd dm w p = (Inr (), ?w1)"
    using Cons.prems by (intro write_profile_present) simp_all
  have "\<exists>w'. rewrite_profiles dm ?w1 ps = (Inr (), w') \<and> sgs w' = Some cache \<and>
    trace w' = trace ?w1 @ concat (map (rewrite_events dm cache) ps)"
    using Cons.prems by (intro Cons.IH) simp_all
  then show ?case by (auto simp: 1)
qed

text \<open>
  C7, as the claim states it, fails: with the profile \<^verbatim>\<open>a_b\<close> needed and the group \<^verbatim>\<open>a\<close>
  never in the cache, \<^verbatim>\<open>security_group_updated\<close> for the group \<^verbatim>\<open>b\<close> raises \<^verbatim>\<open>KeyError\<close>
  and writes nothing, although the tags of \<^verbatim>\<open>a_b\<close> contain \<^verbatim>\<open>b\<close>.
\<close>

theorem security_group_updated_missing_constituent:
  "needed_profiles world_empty_cache = Some [''a_b'', ''a''] \<and>
   sg_id sg_b \<in> set (profile_tags ''a_b'') \<and>
   fst (security_group_updated example_datamodel world_empty_cache sg_b) = Inl KeyError \<and>
   writes (trace (snd (security_group_updated example_datamodel world_empty_cache sg_b))) = []"
proof -
  let ?w4 = "world_empty_cache\<lparr>sgs := Some [''b'' \<mapsto> sg_b],
    trace := [Acquire Sgs_semaphore, Release Sgs_semaphore,
              Acquire Profile_semaphore, Release Profile_semaphore]\<rparr>"
  have tags: "profile_tags ''a_b'' = [''a'', ''b'']" "profile_tags ''a'' = [''a'']"
    by (simp_all add: profile_tags_def)
  have 1: "security_group_updated example_datamodel world_empty_cache sg_b =
      rewrite_profiles example_datamodel ?w4 [''a_b'']"
    by (simp add: security_group_updated_def emit_def tags sg_b_def world_empty_cache_def)
  have 2: "fst (profile_rules ?w4 ''a_b'') = Inl KeyError \<and>
     trace (snd (profile_rules ?w4 ''a_b'')) = trace ?w4 @
         concat (replicate 19 (attempt @ [Log_warning ''a'', Sleep 200])) @
         attempt @ [Log_warning ''a'', Log_error ''a'']"
    using groups_missing [of ?w4 "()" "[''b'' \<mapsto> sg_b]" "[]" "''a''" "[''b'']" "[]" "[]"]
    by (simp add: profile_rules_def tags world_empty_cache_def)
  have 3: "rewrite_profiles example_datamodel ?w4 [''a_b''] =
     (Inl KeyError, snd (profile_rules ?w4 ''a_b''))"
    using 2 by (cases "profile_rules ?w4 ''a_b''") (simp add: write_profile_to_etcd_def)
  show ?thesis
    unfolding 1 3 using 2
    by (simp add: tags sg_b_def world_empty_cache_def writes_append writes_retries attempt_def)
qed

text \<open>
  C7, amended. Let the four attributes exist, and let every group of every affected
  profile (a needed profile whose tags contain the id of \<open>sg\<close>) be in the cache once
  \<open>sg\<close> is stored there, and be well formed. Then \<^verbatim>\<open>security_group_updated(sg)\<close>
  returns normally; it replaces the entry of the cache for the id of \<open>sg\<close> between taking
  and releasing the semaphore of the cache; it then takes and releases the semaphore of
  the profiles, and after that rewrites each affected profile once: it looks up the
  groups of the profile and writes the rules document made from the new cache, and the
  tags. It writes nothing else, so no profile whose tags do not contain the id.
\<close>

theorem security_group_updated_rewrites_affected:
  assumes "sgs_semaphore w = Some u" and "sgs w = Some cache"
    and "profile_semaphore w = Some v" and "needed_profiles w = Some profiles"
    and "\<forall>p\<in>set (affected sg profiles). \<forall>t\<in>set (profile_tags p).
           \<exists>g. (cache(sg_id sg \<mapsto> sg)) t = Some g \<and> well_formed_sg g"
  shows "\<exists>w'. security_group_updated dm w sg = (Inr (), w') \<and>
    sgs w' = Some (cache(sg_id sg \<mapsto> sg)) \<and>
    trace w' = trace w @
      [Acquire Sgs_semaphore, Release Sgs_semaphore,
       Acquire Profile_semaphore, Release Profile_semaphore] @
      concat (map (rewrite_events dm (cache(sg_id sg \<mapsto> sg))) (affected sg profiles)) \<and>
    writes (trace w') = writes (trace w) @
      concat (map (profile_documents dm (cache(sg_id sg \<mapsto> sg))) (affected sg profiles))"
proof -
  let ?w4 = "w\<lparr>sgs := Some (cache(sg_id sg \<mapsto> sg)),
    trace := trace w @ [Acquire Sgs_semaphore, Release Sgs_semaphore,
      Acquire Profile_semaphore, Release Profile_semaphore]\<rparr>"
  have 1: "security_group_updated dm w sg = rewrite_profiles dm ?w4 (affected sg profiles)"
    using assms(1-4) by (simp add: security_group_updated_def emit_def affected_def)
  have "\<exists>w'. rewrite_profiles dm ?w4 (affected sg profiles) = (Inr (), w') \<and>
    sgs w' = Some (cache(sg_id sg \<mapsto> sg)) \<and>
    trace w' = trace ?w4 @
      concat (map (rewrite_events dm (cache(sg_id sg \<mapsto> sg))) (affected sg profiles))"
    using assms by (intro rewrite_profiles_present) simp_all
  then show ?thesis unfolding 1 by (auto simp: writes_append writes_rewrites)
qed

theorem security_group_updated_rewrites_affected_witness:
  "affected sg_b [''a_b'', ''b'', ''a''] = [''a_b'', ''b''] \<and>
   (\<exists>w'. security_group_updated example_datamodel (world_a []) sg_b = (Inr (), w') \<and>
      sgs w' = Some [''a'' \<mapsto> sg_a, ''b'' \<mapsto> sg_b] \<and>
      map fst (writes (trace w')) =
        [''/calico/v1/policy/profile/a_b/rules'', ''/calico/v1/policy/profile/a_b/tags'',
         ''/calico/v1/policy/profile/b/rules'', ''/calico/v1/policy/profile/b/tags''])"
proof -
  have aff: "affected sg_b [''a_b'', ''b'', ''a''] = [''a_b'', ''b'']"
    by (simp add: affected_def profile_tags_def sg_b_def)
  have groups: "\<forall>p\<in>set (affected sg_b [''a_b'', ''b'', ''a'']). \<forall>t\<in>set (profile_tags p).
      \<exists>g. ([''a'' \<mapsto> sg_a](sg_id sg_b \<mapsto> sg_b)) t = Some g \<and> well_formed_sg g"
    unfolding aff
    by (simp add: profile_tags_def sg_a_def sg_b_def well_formed_sg_def well_formed_examples)
  have "\<exists>w'. security_group_updated example_datamodel (world_a []) sg_b = (Inr (), w') \<and>
    sgs w' = Some ([''a'' \<mapsto> sg_a](sg_id sg_b \<mapsto> sg_b)) \<and>
    trace w' = trace (world_a []) @
      [Acquire Sgs_semaphore, Release Sgs_semaphore,
       Acquire Profile_semaphore, Release Profile_semaphore] @
      concat (map (rewrite_events example_datamodel ([''a'' \<mapsto> sg_a](sg_id sg_b \<mapsto> sg_b)))
        (affected sg_b [''a_b'', ''b'', ''a''])) \<and>
    writes (trace w') = writes (trace (world_a [])) @
      concat (map (profile_documents example_datamodel ([''a'' \<mapsto> sg_a](sg_id sg_b \<mapsto> sg_b)))
        (affected sg_b [''a_b'', ''b'', ''a'']))"
    using groups
    by (intro security_group_updated_rewrites_affected [where u = "()" and v = "()"])
      (simp_all add: world_a_def)
  then obtain w' where
    "security_group_updated example_datamodel (world_a []) sg_b = (Inr (), w')"
    "sgs w' = Some ([''a'' \<mapsto> sg_a](sg_id sg_b \<mapsto> sg_b))"
    "writes (trace w') = writes (trace (world_a [])) @
      concat (map (profile_documents example_datamodel ([''a'' \<mapsto> sg_a](sg_id sg_b \<mapsto> sg_b)))
        (affected sg_b [''a_b'', ''b'', ''a'']))"
    by blast
  then show ?thesis
    unfolding aff
    by (simp add: world_a_def sg_b_def profile_documents_def example_datamodel_def)
qed

end
